theory Spec2Isabelle
  imports Complex_Main
begin

section \<open>The detector of model/det.py\<close>

text \<open>
  The module defines \<^verbatim>\<open>channel_shuffle\<close>, the block \<^verbatim>\<open>InvertedResidual\<close> and the
  detector \<^verbatim>\<open>RFDet\<close> (\<^verbatim>\<open>forward\<close>, \<^verbatim>\<open>process\<close>, \<^verbatim>\<open>loss\<close>). The entries of the
  tensors of \<^verbatim>\<open>forward\<close> and \<^verbatim>\<open>process\<close> are real numbers; those of \<^verbatim>\<open>loss\<close> are
  floating-point values, with rounding, overflow, the infinities and NaN.
\<close>

subsection \<open>Exceptions and tensors\<close>

text \<open>
  The exceptions the module can raise: the \<^verbatim>\<open>assert\<close> of the block's constructor, the
  read of a local variable that no branch has assigned, an integer division by zero, the
  read of an attribute the constructor has not set, the tensor library's own error for
  shapes that do not fit (\<^verbatim>\<open>RuntimeError\<close>), and the error of a library constructor
  that rejects its arguments (\<^verbatim>\<open>ValueError\<close>).
\<close>

datatype error =
  AssertionError | UnboundLocalError | ZeroDivisionError | AttributeError | RuntimeError
| ValueError

definition bnd :: "error + 'a \<Rightarrow> ('a \<Rightarrow> error + 'b) \<Rightarrow> error + 'b" where
  "bnd r f = (case r of Inl e \<Rightarrow> Inl e | Inr v \<Rightarrow> f v)"

text \<open>
  A rank-4 tensor is a nested list, outermost axis first: for an image batch the axes are
  (batch, channel, height, width). \<open>has_shape\<close> says that a nested list is the tensor
  of a given size, and \<open>size4\<close> reads the four sizes off the first entries, as
  \<^verbatim>\<open>x.size()\<close> returns them. The empty list is the empty batch. An empty inner list
  does not record the sizes of the axes below it, which \<open>size4\<close> then reads as 0.
\<close>

type_synonym 'a tensor4 = "'a list list list list"

definition size4 :: "'a tensor4 \<Rightarrow> nat \<times> nat \<times> nat \<times> nat" where
  "size4 x =
     (length x,
      (case x of [] \<Rightarrow> 0 | sample # _ \<Rightarrow> length sample),
      (case concat x of [] \<Rightarrow> 0 | plane # _ \<Rightarrow> length plane),
      (case concat (concat x) of [] \<Rightarrow> 0 | row # _ \<Rightarrow> length row))"

definition has_shape :: "'a tensor4 \<Rightarrow> nat \<times> nat \<times> nat \<times> nat \<Rightarrow> bool" where
  "has_shape x s =
     (case s of (b, c, h, w) \<Rightarrow>
        length x = b \<and>
        list_all (\<lambda>sample. length sample = c \<and>
          list_all (\<lambda>plane. length plane = h \<and>
            list_all (\<lambda>row. length row = w) plane) sample) x)"

subsection \<open>channel\_shuffle\<close>

text \<open>
  \<^verbatim>\<open>x.view(batchsize, groups, channels_per_group, height, width)\<close> cuts the channel axis
  of every sample into \<open>groups\<close> consecutive runs of \<open>channels_per_group\<close> channels.
\<close>

definition view_groups :: "nat \<Rightarrow> nat \<Rightarrow> 'a list \<Rightarrow> 'a list list" where
  "view_groups groups channels_per_group chans =
     map (\<lambda>i. take channels_per_group (drop (i * channels_per_group) chans)) [0..<groups]"

text \<open>
  The transposition of axes 1 and 2 and the flattening \<^verbatim>\<open>view(batchsize, -1, height, width)\<close>
  act on the channel axis of one sample: the groups are transposed and concatenated.
\<close>

definition shuffle_channels :: "nat \<Rightarrow> nat \<Rightarrow> 'a list \<Rightarrow> 'a list" where
  "shuffle_channels groups channels_per_group chans =
     concat (transpose (view_groups groups channels_per_group chans))"

text \<open>
  \<^verbatim>\<open>channel_shuffle(x, groups)\<close>. The floor division raises for \<open>groups = 0\<close>. The first
  \<^verbatim>\<open>view\<close> raises for a negative size and when \<open>groups * channels_per_group\<close> is not
  the number of channels; the second \<^verbatim>\<open>view\<close> cannot infer the size \<open>-1\<close> when the
  batch, the height or the width is 0.
\<close>

definition channel_shuffle :: "'a tensor4 \<Rightarrow> int \<Rightarrow> error + 'a tensor4" where
  "channel_shuffle x groups =
     (case size4 x of (batchsize, num_channels, height, width) \<Rightarrow>
        if groups = 0 then Inl ZeroDivisionError
        else
          let channels_per_group = int num_channels div groups in
          if groups < 0 \<or> groups * channels_per_group \<noteq> int num_channels \<or>
             batchsize * height * width = 0
          then Inl RuntimeError
          else Inr (map (shuffle_channels (nat groups) (nat channels_per_group)) x))"

subsection \<open>Library modules\<close>

text \<open>
  The layers the module builds from the tensor library, by the arguments of their
  constructors. \<open>Conv2d\<close> lists in_channels, out_channels, kernel_size, stride, padding,
  dilation, groups and bias; \<open>InstanceNorm2d\<close> the number of features and \<open>affine\<close>.
\<close>

datatype layer =
  Conv2d int int int int int int int bool
| BatchNorm2d int
| ReLU
| InstanceNorm2d int bool

text \<open>
  A library module is a sequence of layers (one layer for a plain module) together with
  its learned parameters, of a type \<open>'w\<close> that is left open. The library draws the
  parameters at construction; here a constructor receives them as \<open>init\<close>, from the name
  of the attribute that holds the module.
\<close>

record 'w module =
  layers :: "layer list"
  weights :: 'w

text \<open>
  What the code calls of the tensor library: the application of a module to a tensor,
  the two bilinear \<^verbatim>\<open>nn.Upsample\<close> modules (by scale factor and by target size) and
  \<^verbatim>\<open>F.conv2d\<close> (input, weight, stride, padding). Each may raise.
\<close>

text \<open>
  The constructors of the layers check their arguments. \<^verbatim>\<open>nn.Conv2d\<close> raises
  \<^verbatim>\<open>ValueError\<close> unless \<open>groups\<close> is positive and divides both channel counts; the
  allocation of its weight then raises \<^verbatim>\<open>RuntimeError\<close> for a negative size, as does
  that of the parameters of \<^verbatim>\<open>nn.BatchNorm2d\<close>. A size of 0 is accepted.
\<close>

definition nn_Conv2d ::
  "int \<Rightarrow> int \<Rightarrow> int \<Rightarrow> int \<Rightarrow> int \<Rightarrow> int \<Rightarrow> int \<Rightarrow> bool \<Rightarrow> error + layer" where
  "nn_Conv2d in_channels out_channels kernel_size stride_arg padding dilation groups bias =
     (if groups \<le> 0 then Inl ValueError
      else if in_channels mod groups \<noteq> 0 then Inl ValueError
      else if out_channels mod groups \<noteq> 0 then Inl ValueError
      else if in_channels < 0 \<or> out_channels < 0 \<or> kernel_size < 0 then Inl RuntimeError
      else Inr (Conv2d in_channels out_channels kernel_size stride_arg padding dilation
                  groups bias))"

definition nn_BatchNorm2d :: "int \<Rightarrow> error + layer" where
  "nn_BatchNorm2d num_features =
     (if num_features < 0 then Inl RuntimeError else Inr (BatchNorm2d num_features))"

text \<open>
  The arguments of \<^verbatim>\<open>nn.Sequential\<close> are evaluated from left to right: the first
  constructor that raises ends the construction.
\<close>

fun nn_Sequential :: "(error + layer) list \<Rightarrow> error + layer list" where
  "nn_Sequential [] = Inr []"
| "nn_Sequential (r # rs) =
     bnd r (\<lambda>l. bnd (nn_Sequential rs) (\<lambda>ls. Inr (l # ls)))"

record 'w torch =
  call :: "'w module \<Rightarrow> real tensor4 \<Rightarrow> error + real tensor4"
  Upsample_scale_factor :: "real \<Rightarrow> real tensor4 \<Rightarrow> error + real tensor4"
  Upsample_size :: "nat \<times> nat \<Rightarrow> real tensor4 \<Rightarrow> error + real tensor4"
  conv2d :: "real tensor4 \<Rightarrow> real tensor4 \<Rightarrow> nat \<Rightarrow> nat \<Rightarrow> error + real tensor4"

subsection \<open>Operations on tensors\<close>

definition map4 :: "('a \<Rightarrow> 'b) \<Rightarrow> 'a tensor4 \<Rightarrow> 'b tensor4" where
  "map4 f x = map (map (map (map f))) x"

definition same_shape :: "'a tensor4 \<Rightarrow> 'b tensor4 \<Rightarrow> bool" where
  "same_shape x y = (map (map (map length)) x = map (map (map length)) y)"

text \<open>
  Elementwise operations of two tensors of one shape. Operands of different shapes are a
  shape error here: broadcasting is not modelled.
\<close>

definition zip4 :: "('a \<Rightarrow> 'b \<Rightarrow> 'c) \<Rightarrow> 'a tensor4 \<Rightarrow> 'b tensor4 \<Rightarrow> 'c tensor4" where
  "zip4 f x y = map2 (map2 (map2 (map2 f))) x y"

definition tmul :: "real tensor4 \<Rightarrow> real tensor4 \<Rightarrow> error + real tensor4" where
  "tmul x y = (if same_shape x y then Inr (zip4 (*) x y) else Inl RuntimeError)"

text \<open>\<^verbatim>\<open>mask.to(torch.float)\<close>.\<close>

definition to_float :: "bool tensor4 \<Rightarrow> real tensor4" where
  "to_float m = map4 (\<lambda>b. if b then 1 else 0) m"

text \<open>\<^verbatim>\<open>x.permute(0, 2, 3, 1)\<close> and \<^verbatim>\<open>x.permute(0, 3, 1, 2)\<close>.\<close>

definition permute_0231 :: "'a tensor4 \<Rightarrow> 'a tensor4" where
  "permute_0231 x = map (\<lambda>sample. map transpose (transpose sample)) x"

definition permute_0312 :: "'a tensor4 \<Rightarrow> 'a tensor4" where
  "permute_0312 x = map (\<lambda>sample. transpose (map transpose sample)) x"

text \<open>
  \<^verbatim>\<open>torch.cat(ts, 1)\<close>: the tensors are joined along the channel axis; every other axis
  must agree.
\<close>

definition cat_dim1 :: "'a tensor4 list \<Rightarrow> error + 'a tensor4" where
  "cat_dim1 ts =
     (let r = map concat (transpose ts) in
      if ts \<noteq> [] \<and> list_all (\<lambda>t. length t = length (hd ts)) ts \<and> has_shape r (size4 r)
      then Inr r else Inl RuntimeError)"

text \<open>\<^verbatim>\<open>F.leaky_relu(x)\<close> with the default negative slope 0.01.\<close>

definition leaky_relu :: "real tensor4 \<Rightarrow> real tensor4" where
  "leaky_relu x = map4 (\<lambda>v. if 0 \<le> v then v else 0.01 * v) x"

text \<open>\<^verbatim>\<open>x.clamp(min=lo, max=hi)\<close>.\<close>

definition clamp :: "real \<Rightarrow> real \<Rightarrow> real tensor4 \<Rightarrow> real tensor4" where
  "clamp lo hi x = map4 (\<lambda>v. min (max v lo) hi) x"

text \<open>A property of every entry of a tensor.\<close>

definition all_entries :: "('a \<Rightarrow> bool) \<Rightarrow> 'a tensor4 \<Rightarrow> bool" where
  "all_entries P x = list_all (list_all (list_all (list_all P))) x"

subsection \<open>Floating-point values\<close>

text \<open>
  A floating-point value is a finite number, an infinity of either sign, or NaN. The
  sign of a zero is not kept.
\<close>

datatype float = Finite real | PosInf | NegInf | NaN

definition finite_float :: "float \<Rightarrow> bool" where
  "finite_float v = (case v of Finite r \<Rightarrow> True | _ \<Rightarrow> False)"

text \<open>
  A floating-point format is given by its rounding \<open>rnd\<close> of a real number to a number
  of the format, taken as if the exponent had no upper bound, and by its largest finite
  number \<open>fmax\<close>. \<open>fin F r\<close> is the value of an operation whose exact result is the
  real number \<open>r\<close>: the rounded result, or an infinity when that is beyond \<open>fmax\<close>.
\<close>

record format =
  rnd :: "real \<Rightarrow> real"
  fmax :: real

definition fin :: "format \<Rightarrow> real \<Rightarrow> float" where
  "fin F r =
     (if fmax F < rnd F r then PosInf
      else if rnd F r < - fmax F then NegInf
      else Finite (rnd F r))"

text \<open>
  What the properties below ask of a format: the rounding is monotone, and 0, 1, 2 and
  the largest finite number, which is at least 3, are numbers of the format. The 32-bit
  format with rounding to nearest is such a format.
\<close>

definition float_format :: "format \<Rightarrow> bool" where
  "float_format F =
     (mono (rnd F) \<and> rnd F 0 = 0 \<and> rnd F 1 = 1 \<and> rnd F 2 = 2 \<and>
      rnd F (fmax F) = fmax F \<and> 3 \<le> fmax F)"

text \<open>
  The arithmetic of IEEE 754: NaN propagates, the difference of two equal infinities
  and the product of an infinity and zero are NaN.
\<close>

fun fadd :: "format \<Rightarrow> float \<Rightarrow> float \<Rightarrow> float" where
  "fadd F (Finite x) (Finite y) = fin F (x + y)"
| "fadd F NaN b = NaN"
| "fadd F a NaN = NaN"
| "fadd F PosInf NegInf = NaN"
| "fadd F NegInf PosInf = NaN"
| "fadd F PosInf b = PosInf"
| "fadd F a PosInf = PosInf"
| "fadd F NegInf b = NegInf"
| "fadd F a NegInf = NegInf"

fun fsub :: "format \<Rightarrow> float \<Rightarrow> float \<Rightarrow> float" where
  "fsub F (Finite x) (Finite y) = fin F (x - y)"
| "fsub F NaN b = NaN"
| "fsub F a NaN = NaN"
| "fsub F PosInf PosInf = NaN"
| "fsub F NegInf NegInf = NaN"
| "fsub F PosInf b = PosInf"
| "fsub F a PosInf = NegInf"
| "fsub F NegInf b = NegInf"
| "fsub F a NegInf = PosInf"

fun fmul :: "format \<Rightarrow> float \<Rightarrow> float \<Rightarrow> float" where
  "fmul F (Finite x) (Finite y) = fin F (x * y)"
| "fmul F NaN b = NaN"
| "fmul F a NaN = NaN"
| "fmul F (Finite x) PosInf = (if x = 0 then NaN else if 0 < x then PosInf else NegInf)"
| "fmul F (Finite x) NegInf = (if x = 0 then NaN else if 0 < x then NegInf else PosInf)"
| "fmul F PosInf (Finite y) = (if y = 0 then NaN else if 0 < y then PosInf else NegInf)"
| "fmul F NegInf (Finite y) = (if y = 0 then NaN else if 0 < y then NegInf else PosInf)"
| "fmul F PosInf PosInf = PosInf"
| "fmul F NegInf NegInf = PosInf"
| "fmul F PosInf NegInf = NegInf"
| "fmul F NegInf PosInf = NegInf"

text \<open>
  A nonzero number divided by zero is an infinity whose sign depends on the sign of the
  zero; the zero is taken as positive here. No divisor of \<^verbatim>\<open>loss\<close> is a zero of
  either sign: it is a sum of a number that is at least 2 and of \<^verbatim>\<open>1e-8\<close>.
\<close>

fun fdiv :: "format \<Rightarrow> float \<Rightarrow> float \<Rightarrow> float" where
  "fdiv F (Finite x) (Finite y) =
     (if y = 0 then (if x = 0 then NaN else if 0 < x then PosInf else NegInf)
      else fin F (x / y))"
| "fdiv F NaN b = NaN"
| "fdiv F a NaN = NaN"
| "fdiv F (Finite x) PosInf = Finite 0"
| "fdiv F (Finite x) NegInf = Finite 0"
| "fdiv F PosInf (Finite y) = (if 0 \<le> y then PosInf else NegInf)"
| "fdiv F NegInf (Finite y) = (if 0 \<le> y then NegInf else PosInf)"
| "fdiv F PosInf b = NaN"
| "fdiv F NegInf b = NaN"

text \<open>\<^verbatim>\<open>torch.clamp(x, min=lo)\<close> on one entry: NaN stays NaN.\<close>

fun clamp_min :: "real \<Rightarrow> float \<Rightarrow> float" where
  "clamp_min lo (Finite x) = Finite (max x lo)"
| "clamp_min lo PosInf = PosInf"
| "clamp_min lo NegInf = Finite lo"
| "clamp_min lo NaN = NaN"

text \<open>
  The sum of a list of values, from 0 and from left to right. The library may add in
  another order, which can change the rounding of the sum.
\<close>

definition fsum :: "format \<Rightarrow> float list \<Rightarrow> float" where
  "fsum F xs = foldl (fadd F) (Finite 0) xs"

text \<open>\<^verbatim>\<open>x.sum(dim=(3, 2, 1))\<close>: one sum per sample.\<close>

definition sum_321 :: "format \<Rightarrow> float tensor4 \<Rightarrow> float list" where
  "sum_321 F x = map (\<lambda>sample. fsum F (concat (concat sample))) x"

text \<open>\<^verbatim>\<open>x.mean()\<close>: the sum divided by the number of entries, NaN for no entry.\<close>

definition mean :: "format \<Rightarrow> float list \<Rightarrow> float" where
  "mean F qs = fdiv F (fsum F qs) (fin F (real (length qs)))"

subsection \<open>InvertedResidual\<close>

record 'w InvertedResidual =
  benchmodel :: int
  stride :: int
  banch1 :: "'w module option"
  banch2 :: "'w module"

text \<open>
  \<^verbatim>\<open>InvertedResidual.__init__(inp, oup, stride, benchmodel)\<close>. The attribute \<^verbatim>\<open>banch1\<close>
  is set only in the \<^verbatim>\<open>else\<close> branch. The layers are constructed in the order of the
  source, and the constructor raises what the first failing layer raises: the depthwise
  convolutions have \<open>groups = inp\<close> and \<open>groups = oup_inc\<close>, which must be positive.
\<close>

definition InvertedResidual_init ::
  "(string \<Rightarrow> 'w) \<Rightarrow> int \<Rightarrow> int \<Rightarrow> int \<Rightarrow> int \<Rightarrow> error + 'w InvertedResidual" where
  "InvertedResidual_init init inp oup stride_arg benchmodel_arg =
     (if \<not> (stride_arg = 1 \<or> stride_arg = 2) then Inl AssertionError
      else
        let oup_inc = oup div 2 in
        if benchmodel_arg = 1 then
          bnd (nn_Sequential
                 [nn_Conv2d oup_inc oup_inc 1 1 0 1 1 False,
                  nn_BatchNorm2d oup_inc,
                  Inr ReLU,
                  nn_Conv2d oup_inc oup_inc 3 stride_arg 1 1 oup_inc False,
                  nn_BatchNorm2d oup_inc,
                  nn_Conv2d oup_inc oup_inc 1 1 0 1 1 False,
                  nn_BatchNorm2d oup_inc,
                  Inr ReLU]) (\<lambda>layers2.
          Inr \<lparr>benchmodel = benchmodel_arg, stride = stride_arg,
               banch1 = None,
               banch2 = \<lparr>layers = layers2, weights = init ''banch2''\<rparr>\<rparr>)
        else
          bnd (nn_Sequential
                 [nn_Conv2d inp inp 3 stride_arg 1 1 inp False,
                  nn_BatchNorm2d inp,
                  nn_Conv2d inp oup_inc 1 1 0 1 1 False,
                  nn_BatchNorm2d oup_inc,
                  Inr ReLU]) (\<lambda>layers1.
          bnd (nn_Sequential
                 [nn_Conv2d inp oup_inc 1 1 0 1 1 False,
                  nn_BatchNorm2d oup_inc,
                  Inr ReLU,
                  nn_Conv2d oup_inc oup_inc 3 stride_arg 1 1 oup_inc False,
                  nn_BatchNorm2d oup_inc,
                  nn_Conv2d oup_inc oup_inc 1 1 0 1 1 False,
                  nn_BatchNorm2d oup_inc,
                  Inr ReLU]) (\<lambda>layers2.
          Inr \<lparr>benchmodel = benchmodel_arg, stride = stride_arg,
               banch1 = Some \<lparr>layers = layers1, weights = init ''banch1''\<rparr>,
               banch2 = \<lparr>layers = layers2, weights = init ''banch2''\<rparr>\<rparr>)))"

text \<open>
  \<^verbatim>\<open>InvertedResidual.forward(x)\<close>. Neither branch of the \<^verbatim>\<open>if\<close>/\<^verbatim>\<open>elif\<close> assigns
  \<^verbatim>\<open>out\<close> when \<^verbatim>\<open>benchmodel\<close> is neither 1 nor 2, and the \<^verbatim>\<open>return\<close> then reads an
  unassigned local variable.
\<close>

definition InvertedResidual_forward ::
  "'w torch \<Rightarrow> 'w InvertedResidual \<Rightarrow> real tensor4 \<Rightarrow> error + real tensor4" where
  "InvertedResidual_forward T self x =
     (if 1 = benchmodel self then
        let x1 = map (take (fst (snd (size4 x)) div 2)) x;
            x2 = map (drop (fst (snd (size4 x)) div 2)) x
        in bnd (call T (banch2 self) x2) (\<lambda>y2.
           bnd (cat_dim1 [x1, y2]) (\<lambda>out.
           channel_shuffle out 2))
      else if 2 = benchmodel self then
        (case banch1 self of
           None \<Rightarrow> Inl AttributeError
         | Some b1 \<Rightarrow>
             bnd (call T b1 x) (\<lambda>y1.
             bnd (call T (banch2 self) x) (\<lambda>y2.
             bnd (cat_dim1 [y1, y2]) (\<lambda>out.
             channel_shuffle out 2))))
      else Inl UnboundLocalError)"

subsection \<open>The helpers of utils.image\_utils and utils.math\_utils\<close>

text \<open>
  \<^verbatim>\<open>det.py\<close> imports seven functions whose code is not in this file. The model takes
  them as given functions, each of which may raise. \<open>nms\<close> takes the threshold and the
  window size, \<open>topk_map\<close> the number k, \<open>get_gauss_filter_weight\<close> the kernel size and
  sigma, \<open>soft_nms_3d\<close> the window size and the strength, \<open>L2Norm\<close> the axis.
  \<open>soft_max_and_argmax_1d\<close> takes the input, the scale list and the two strengths (the
  call passes \<^verbatim>\<open>orint_maps=None\<close>, \<^verbatim>\<open>dim=-1\<close> and \<^verbatim>\<open>keepdim=True\<close>) and returns the
  score map and the scale map.
\<close>

record image_utils =
  filter_border :: "real tensor4 \<Rightarrow> error + real tensor4"
  nms :: "real tensor4 \<Rightarrow> real \<Rightarrow> nat \<Rightarrow> error + real tensor4"
  topk_map :: "real tensor4 \<Rightarrow> nat \<Rightarrow> error + bool tensor4"
  get_gauss_filter_weight :: "nat \<Rightarrow> real \<Rightarrow> error + real list list"
  soft_nms_3d :: "real tensor4 \<Rightarrow> nat \<Rightarrow> real \<Rightarrow> error + real tensor4"
  soft_max_and_argmax_1d ::
    "real tensor4 \<Rightarrow> real list \<Rightarrow> real \<Rightarrow> real \<Rightarrow> error + (real tensor4 \<times> real tensor4)"
  L2Norm :: "real tensor4 \<Rightarrow> nat \<Rightarrow> error + real tensor4"

subsection \<open>RFDet\<close>

record 'w RFDet =
  score_com_strength :: real
  scale_com_strength :: real
  NMS_THRESH :: real
  NMS_KSIZE :: nat
  TOPK :: nat
  GAUSSIAN_KSIZE :: nat
  GAUSSIAN_SIGMA :: real
  features :: "'w InvertedResidual list"
  conv_1_1 :: "'w module"
  insnorm_1_1 :: "'w module"
  conv_scale :: "'w module"
  insnorm_scale :: "'w module"
  conv_ori :: "'w module"
  scale_list :: "real list"

text \<open>
  \<^verbatim>\<open>RFDet.__init__\<close>. The argument \<^verbatim>\<open>scale_list\<close> is not read: the attribute is set to
  the fixed list 12.0, 32.0, 64.0. The two blocks and the convolutions are constructed in
  the order of the source.
\<close>

definition RFDet_init ::
  "(string \<Rightarrow> 'w) \<Rightarrow> real \<Rightarrow> real \<Rightarrow> real \<Rightarrow> nat \<Rightarrow> nat \<Rightarrow> nat \<Rightarrow> real \<Rightarrow> int \<Rightarrow> int \<Rightarrow> int \<Rightarrow>
   real list \<Rightarrow> error + 'w RFDet" where
  "RFDet_init init score_com_strength_arg scale_com_strength_arg nms_thresh nms_ksize topk
     gauss_ksize gauss_sigma ksize padding dilation scale_list_arg =
     bnd (InvertedResidual_init (\<lambda>k. init (''features.0.'' @ k)) 3 12 1 2) (\<lambda>block0.
     bnd (InvertedResidual_init (\<lambda>k. init (''features.1.'' @ k)) 12 12 1 1) (\<lambda>block1.
     bnd (nn_Conv2d 12 1 ksize 1 padding dilation 1 True) (\<lambda>conv_1_1_layer.
     bnd (nn_Conv2d 3 1 3 1 1 1 1 True) (\<lambda>conv_scale_layer.
     bnd (nn_Conv2d 12 2 1 1 0 1 1 True) (\<lambda>conv_ori_layer.
     Inr \<lparr>score_com_strength = score_com_strength_arg,
          scale_com_strength = scale_com_strength_arg,
          NMS_THRESH = nms_thresh,
          NMS_KSIZE = nms_ksize,
          TOPK = topk,
          GAUSSIAN_KSIZE = gauss_ksize,
          GAUSSIAN_SIGMA = gauss_sigma,
          features = [block0, block1],
          conv_1_1 = \<lparr>layers = [conv_1_1_layer], weights = init ''conv_1_1''\<rparr>,
          insnorm_1_1 = \<lparr>layers = [InstanceNorm2d 1 True], weights = init ''insnorm_1_1''\<rparr>,
          conv_scale = \<lparr>layers = [conv_scale_layer], weights = init ''conv_scale''\<rparr>,
          insnorm_scale = \<lparr>layers = [InstanceNorm2d 1 True],
                           weights = init ''insnorm_scale''\<rparr>,
          conv_ori = \<lparr>layers = [conv_ori_layer], weights = init ''conv_ori''\<rparr>,
          scale_list = [12.0, 32.0, 64.0]\<rparr>)))))"

text \<open>\<^verbatim>\<open>self.features(photos)\<close>: the blocks of the \<^verbatim>\<open>nn.Sequential\<close>, in order.\<close>

fun run_features ::
  "'w torch \<Rightarrow> 'w InvertedResidual list \<Rightarrow> real tensor4 \<Rightarrow> error + real tensor4" where
  "run_features T [] x = Inr x"
| "run_features T (block # blocks) x =
     bnd (InvertedResidual_forward T block x) (run_features T blocks)"

text \<open>
  The first part of \<^verbatim>\<open>RFDet.forward\<close>, from the two downsampled copies of the feature
  map to the three per-scale maps \<^verbatim>\<open>feature_map_1\<close>, \<^verbatim>\<open>feature_map_2\<close> and
  \<^verbatim>\<open>feature_map_3\<close>.
\<close>

definition forward_feature_maps ::
  "'w torch \<Rightarrow> 'w RFDet \<Rightarrow> real tensor4 \<Rightarrow> error + (real tensor4 \<times> real tensor4 \<times> real tensor4)" where
  "forward_feature_maps T self feature_map =
     bnd (Upsample_scale_factor T 0.75 feature_map) (\<lambda>feature_map_2.
     bnd (Upsample_scale_factor T 0.5 feature_map) (\<lambda>feature_map_3.
     bnd (call T (conv_1_1 self) feature_map) (\<lambda>c1.
     bnd (call T (insnorm_1_1 self) c1) (\<lambda>n1.
     let feature_map_1 = leaky_relu n1 in
     bnd (call T (conv_1_1 self) feature_map_2) (\<lambda>c2.
     bnd (call T (insnorm_1_1 self) c2) (\<lambda>n2.
     let feature_map_2 = leaky_relu n2 in
     bnd (call T (conv_1_1 self) feature_map_3) (\<lambda>c3.
     bnd (call T (insnorm_1_1 self) c3) (\<lambda>n3.
     let feature_map_3 = leaky_relu n3 in
     Inr (feature_map_1, feature_map_2, feature_map_3)))))))))"

text \<open>\<^verbatim>\<open>RFDet.forward(photos)\<close>: the score map, the scale map and the orientation map.\<close>

definition forward ::
  "'w torch \<Rightarrow> image_utils \<Rightarrow> 'w RFDet \<Rightarrow> real tensor4 \<Rightarrow>
   error + (real tensor4 \<times> real tensor4 \<times> real tensor4)" where
  "forward T U self photos =
     (case size4 photos of (B, C, H, W) \<Rightarrow>
     bnd (run_features T (features self) photos) (\<lambda>feature_map.
     bnd (forward_feature_maps T self feature_map) (\<lambda>(feature_map_1, feature_map_2, feature_map_3).
     bnd (Upsample_size T (H, W) feature_map_2) (\<lambda>up_2.
     bnd (Upsample_size T (H, W) feature_map_3) (\<lambda>up_3.
     bnd (cat_dim1 [feature_map_1, up_2, up_3]) (\<lambda>score_maps.
     let score_maps = permute_0231 score_maps in
     bnd (soft_nms_3d U score_maps 15 10.0) (\<lambda>scale_probs.
     bnd (soft_max_and_argmax_1d U scale_probs (scale_list self)
            (score_com_strength self) (scale_com_strength self)) (\<lambda>(score_map, scale_map).
     bnd (call T (conv_ori self) feature_map) (\<lambda>ori.
     bnd (L2Norm U ori 1) (\<lambda>n.
     let ori_map = permute_0231 n in
     Inr (score_map, scale_map, ori_map)))))))))))"

text \<open>
  \<^verbatim>\<open>RFDet.process(im1w_score)\<close>: border filter, non-maximum suppression, top-k mask,
  Gaussian smoothing, clamp. \<^verbatim>\<open>topk_value\<close> is bound before the top-k mask is computed.
\<close>

definition process ::
  "'w torch \<Rightarrow> image_utils \<Rightarrow> 'w RFDet \<Rightarrow> real tensor4 \<Rightarrow>
   error + (real tensor4 \<times> bool tensor4 \<times> real tensor4)" where
  "process T U self im1w_score =
     bnd (filter_border U im1w_score) (\<lambda>im1w_score.
     bnd (nms U im1w_score (NMS_THRESH self) (NMS_KSIZE self)) (\<lambda>nms_mask.
     bnd (tmul im1w_score nms_mask) (\<lambda>im1w_score.
     let topk_value = im1w_score in
     bnd (topk_map U im1w_score (TOPK self)) (\<lambda>topk_mask.
     bnd (tmul (to_float topk_mask) im1w_score) (\<lambda>im1w_score.
     bnd (get_gauss_filter_weight U (GAUSSIAN_KSIZE self) (GAUSSIAN_SIGMA self)) (\<lambda>g.
     let psf = [[g]] in
     bnd (conv2d T (permute_0312 im1w_score) psf 1 (GAUSSIAN_KSIZE self div 2)) (\<lambda>c.
     let im1w_score = permute_0231 c;
         im1w_score = clamp 0.0 1.0 im1w_score
     in Inr (im1w_score, topk_mask, topk_value))))))))"

text \<open>
  \<^verbatim>\<open>RFDet.loss\<close>, on floating-point values of a format \<open>F\<close>. The three tensors must
  have one shape. \<open>l2_element_diff\<close> is the squared difference
  \<^verbatim>\<open>(im1_score - im1gt_score) ** 2\<close>, the product of the difference with itself, and
  \<open>Nvi\<close> the number of visible pixels of every sample, clamped to at least 2.
\<close>

definition l2_element_diff :: "format \<Rightarrow> float tensor4 \<Rightarrow> float tensor4 \<Rightarrow> float tensor4" where
  "l2_element_diff F im1_score im1gt_score =
     map4 (\<lambda>d. fmul F d d) (zip4 (fsub F) im1_score im1gt_score)"

definition Nvi :: "format \<Rightarrow> float tensor4 \<Rightarrow> float list" where
  "Nvi F im1visible_mask = map (clamp_min 2.0) (sum_321 F im1visible_mask)"

definition loss ::
  "format \<Rightarrow> float tensor4 \<Rightarrow> float tensor4 \<Rightarrow> float tensor4 \<Rightarrow> error + float" where
  "loss F left_score im1gt_score im1visible_mask =
     (let im1_score = left_score in
      if \<not> same_shape im1_score im1gt_score then Inl RuntimeError
      else if \<not> same_shape (l2_element_diff F im1_score im1gt_score) im1visible_mask
      then Inl RuntimeError
      else
        Inr (mean F
          (map2 (\<lambda>s n. fdiv F s (fadd F n (fin F (1 / 10 ^ 8))))
             (sum_321 F (zip4 (fmul F) (l2_element_diff F im1_score im1gt_score)
                im1visible_mask))
             (Nvi F im1visible_mask))))"

subsection \<open>The helpers of process, from the specification\<close>

text \<open>
  Modelled from the spec: \<^verbatim>\<open>filter_border\<close> of utils.image_utils, whose code is not in
  det.py. "Border filter: zero out a fixed-width border region." The width of the border
  is the parameter \<open>radius\<close>; the tensor is a score map with the axes (batch, height,
  width, channel).
\<close>

definition spec_filter_border :: "nat \<Rightarrow> real tensor4 \<Rightarrow> error + real tensor4" where
  "spec_filter_border radius x =
     Inr (map (\<lambda>sample.
       map (\<lambda>h. map (\<lambda>w.
           if radius \<le> h \<and> h + radius < length sample \<and>
              radius \<le> w \<and> w + radius < length (sample ! h)
           then sample ! h ! w
           else map (\<lambda>v. 0) (sample ! h ! w))
         [0..<length (sample ! h)]) [0..<length sample]) x)"

text \<open>
  The positions of a window of side \<open>ksize\<close> around position \<open>i\<close> of an axis of length
  \<open>n\<close>.
\<close>

definition window :: "nat \<Rightarrow> nat \<Rightarrow> nat \<Rightarrow> nat list" where
  "window ksize n i = [i - ksize div 2 ..< min n (i + ksize div 2 + 1)]"

text \<open>
  Modelled from the spec: \<^verbatim>\<open>nms\<close> of utils.image_utils, whose code is not in det.py.
  "Spatial NMS: zero out any pixel whose value is not the local maximum within a square
  window of side NMS_KSIZE, gated by NMS_THRESH." The mask is 1 where the value reaches
  the threshold and every value of its window, and 0 elsewhere.
\<close>

definition spec_nms :: "real tensor4 \<Rightarrow> real \<Rightarrow> nat \<Rightarrow> error + real tensor4" where
  "spec_nms x thresh ksize =
     Inr (map (\<lambda>sample.
       map (\<lambda>h. map (\<lambda>w. map (\<lambda>c.
           if thresh \<le> sample ! h ! w ! c \<and>
              list_all (\<lambda>h'. list_all (\<lambda>w'. sample ! h' ! w' ! c \<le> sample ! h ! w ! c)
                 (window ksize (length (sample ! h')) w)) (window ksize (length sample) h)
           then 1 else 0)
         [0..<length (sample ! h ! w)]) [0..<length (sample ! h)]) [0..<length sample]) x)"

text \<open>
  Modelled from the spec: \<^verbatim>\<open>topk_map\<close> of utils.image_utils, whose code is not in
  det.py. "Top-k selection: retain only the TOPK highest-valued surviving positions per
  image (ties broken implementation-defined)." A position is kept when fewer than \<open>k\<close>
  positions of its image come before it, by larger value or, among equal values, by
  earlier position.
\<close>

definition spec_topk_map :: "real tensor4 \<Rightarrow> nat \<Rightarrow> error + bool tensor4" where
  "spec_topk_map x k =
     Inr (map (\<lambda>sample.
       let vs = concat (concat sample);
           before = (\<lambda>p. filter (\<lambda>q. vs ! p < vs ! q \<or> (vs ! q = vs ! p \<and> q < p))
                           [0..<length vs])
       in map (\<lambda>h. map (\<lambda>w. map (\<lambda>c.
              length (before (length (concat (concat (take h sample))) +
                              length (concat (take w (sample ! h))) + c)) < k)
            [0..<length (sample ! h ! w)]) [0..<length (sample ! h)]) [0..<length sample]) x)"

text \<open>
  Modelled from the spec: \<^verbatim>\<open>get_gauss_filter_weight\<close> of utils.image_utils, whose code
  is not in det.py. "A fixed, non-learned Gaussian kernel of size GAUSSIAN_KSIZE and
  spread GAUSSIAN_SIGMA", centred in the window.
\<close>

definition spec_get_gauss_filter_weight :: "nat \<Rightarrow> real \<Rightarrow> error + real list list" where
  "spec_get_gauss_filter_weight ksize sigma =
     Inr (map (\<lambda>y. map (\<lambda>x.
            exp (- ((real x - real (ksize div 2)) ^ 2 + (real y - real (ksize div 2)) ^ 2)
                 / (2 * sigma ^ 2)))
          [0..<ksize]) [0..<ksize])"

subsection \<open>The scale fusion, from the specification\<close>

text \<open>
  The softmax weights of a list of values at a given strength, and the sum of a list of
  values weighted by a list of weights.
\<close>

definition softmax :: "real \<Rightarrow> real list \<Rightarrow> real list" where
  "softmax strength bins =
     map (\<lambda>v. exp (strength * v) / sum_list (map (\<lambda>u. exp (strength * u)) bins)) bins"

definition weighted_sum :: "real list \<Rightarrow> real list \<Rightarrow> real" where
  "weighted_sum vs ws = sum_list (map2 (*) vs ws)"

text \<open>
  Modelled from the spec: \<^verbatim>\<open>soft_max_and_argmax_1d\<close> of utils.image_utils, whose code is
  not in det.py. "Soft-argmax across the 3-bin scale axis using two independently
  tunable competition-strength parameters (one governing the output score's sharpness,
  one governing the scale estimate's sharpness), producing (a) a fused score map, a
  soft-weighted combination of the per-scale values, and (b) a fused scale map, a
  soft-weighted combination of the fixed scale anchors"; a soft-argmax returns "a
  probability-weighted sum over candidate positions/bins". The input has the axes
  (batch, height, width, scale); the weights of a pixel are the softmax of its bins at
  the strength in question, and both outputs keep the reduced axis with size 1. A pixel
  that does not have one bin per scale anchor is a shape error.
\<close>

definition spec_soft_max_and_argmax_1d ::
  "real tensor4 \<Rightarrow> real list \<Rightarrow> real \<Rightarrow> real \<Rightarrow> error + (real tensor4 \<times> real tensor4)" where
  "spec_soft_max_and_argmax_1d input scales com_strength1 com_strength2 =
     (if list_all (list_all (list_all (\<lambda>bins. length bins = length scales))) input
      then Inr (map (map (map (\<lambda>bins. [weighted_sum bins (softmax com_strength1 bins)]))) input,
                map (map (map (\<lambda>bins. [weighted_sum scales (softmax com_strength2 bins)]))) input)
      else Inl RuntimeError)"

text \<open>
  Modelled from the spec: \<^verbatim>\<open>soft_nms_3d\<close> of utils.image_utils, whose code is not in
  det.py. "Differentiable soft non-maximum-suppression over a spatial neighborhood
  (configurable kernel size, default 15) combined with a softmax-like competition
  strength parameter"; soft-NMS is a "relaxation of non-maximum suppression using a
  softmax-weighted local competition instead of a hard max". A value competes with the
  values of all scales at the pixels of the window around its own pixel: the output is
  its softmax weight among them, at the given strength.
\<close>

definition spec_soft_nms_3d :: "real tensor4 \<Rightarrow> nat \<Rightarrow> real \<Rightarrow> error + real tensor4" where
  "spec_soft_nms_3d scale_logits ksize com_strength =
     Inr (map (\<lambda>sample.
       map (\<lambda>h. map (\<lambda>w. map (\<lambda>v.
           exp (com_strength * v) /
           sum_list (map (\<lambda>u. exp (com_strength * u))
             (concat (concat (map (\<lambda>h'. map (\<lambda>w'. sample ! h' ! w')
                (window ksize (length (sample ! h')) w)) (window ksize (length sample) h))))))
         (sample ! h ! w)) [0..<length (sample ! h)]) [0..<length sample]) scale_logits)"


subsection \<open>The score head, from the specification\<close>

text \<open>
  The head as the specification describes it: one convolution module, one instance
  normalisation module, then the leaky ReLU.
\<close>

definition score_head ::
  "'w torch \<Rightarrow> 'w module \<Rightarrow> 'w module \<Rightarrow> real tensor4 \<Rightarrow> error + real tensor4" where
  "score_head T conv insnorm x =
     bnd (call T conv x) (\<lambda>c. bnd (call T insnorm c) (\<lambda>n. Inr (leaky_relu n)))"

subsection \<open>Instances for the examples\<close>

text \<open>
  An instance of the tensor library for the examples. A module returns a tensor of ones
  with the output channels of its last convolution and the spatial size of its input;
  the upsampling modules return ones of the target size (the floor of the scaled size);
  \<open>conv2d\<close> handles a kernel of size 1 by 1 with stride 1 and no padding, where it
  scales the input by the one weight.
\<close>

definition out_channels :: "layer list \<Rightarrow> nat \<Rightarrow> nat" where
  "out_channels ls c =
     fold (\<lambda>l c. case l of Conv2d i out k s p d g b \<Rightarrow> nat out | _ \<Rightarrow> c) ls c"

definition ones :: "nat \<Rightarrow> nat \<Rightarrow> nat \<Rightarrow> nat \<Rightarrow> real tensor4" where
  "ones b c h w = replicate b (replicate c (replicate h (replicate w 1)))"

definition T0 :: "unit torch" where
  "T0 = \<lparr>call = (\<lambda>m x. case size4 x of (b, c, h, w) \<Rightarrow>
                   Inr (ones b (out_channels (layers m) c) h w)),
         Upsample_scale_factor = (\<lambda>f x. case size4 x of (b, c, h, w) \<Rightarrow>
                   Inr (ones b c (nat \<lfloor>real h * f\<rfloor>) (nat \<lfloor>real w * f\<rfloor>))),
         Upsample_size = (\<lambda>(h', w') x. case size4 x of (b, c, h, w) \<Rightarrow> Inr (ones b c h' w')),
         conv2d = (\<lambda>x weight stride_arg padding.
                   case weight of
                     [[[[k]]]] \<Rightarrow> if stride_arg = 1 \<and> padding = 0
                                  then Inr (map4 (\<lambda>v. k * v) x) else Inl RuntimeError
                   | _ \<Rightarrow> Inl RuntimeError)\<rparr>"

text \<open>
  The helpers for the examples: a border of width 1, the other helpers as modelled
  above; \<^verbatim>\<open>L2Norm\<close> is not modelled and returns its argument.
\<close>

definition U0 :: image_utils where
  "U0 = \<lparr>filter_border = spec_filter_border 1,
         nms = spec_nms,
         topk_map = spec_topk_map,
         get_gauss_filter_weight = spec_get_gauss_filter_weight,
         soft_nms_3d = spec_soft_nms_3d,
         soft_max_and_argmax_1d = spec_soft_max_and_argmax_1d,
         L2Norm = (\<lambda>x dim. Inr x)\<rparr>"

text \<open>
  The detector that \<^verbatim>\<open>RFDet.__init__\<close> builds for both strengths 1, the NMS threshold 0
  with a window of side 3, \<open>TOPK = 1\<close>, a Gaussian kernel of size 1 with sigma 1 and a
  head convolution of size 3 with padding 1 and dilation 1.
\<close>

definition init0 :: "string \<Rightarrow> unit" where
  "init0 k = ()"

definition det0 :: "unit RFDet" where
  "det0 = projr (RFDet_init init0 1 1 0 3 1 1 1 3 1 1 [])"

text \<open>
  A warped score map of one image of 3 by 5 pixels: inside the border of width 1 it has
  the values 0.8, 0.1 and 0.5, two local maxima.
\<close>

definition score0 :: "real tensor4" where
  "score0 = [[[[0.3], [0.2], [0.9], [0.2], [0.1]],
              [[0.7], [0.8], [0.1], [0.5], [0.6]],
              [[0.3], [0.2], [0.1], [0.2], [0.1]]]]"


text \<open>
  The values of \<^verbatim>\<open>process\<close> on that score map, step by step: after the border filter, the
  NMS mask, their product, the top-k mask for \<open>TOPK = 1\<close>, and the product with the top-k
  mask, which the Gaussian kernel of size 1 and the clamp leave as it is.
\<close>

definition filtered0 :: "real tensor4" where
  "filtered0 = [[[[0], [0], [0], [0], [0]],
                 [[0], [0.8], [0.1], [0.5], [0]],
                 [[0], [0], [0], [0], [0]]]]"

definition nms_mask0 :: "real tensor4" where
  "nms_mask0 = [[[[0], [0], [0], [0], [0]],
                 [[0], [1], [0], [1], [0]],
                 [[0], [0], [0], [0], [0]]]]"

definition val0 :: "real tensor4" where
  "val0 = [[[[0], [0], [0], [0], [0]],
            [[0], [0.8], [0], [0.5], [0]],
            [[0], [0], [0], [0], [0]]]]"

definition mask0 :: "bool tensor4" where
  "mask0 = [[[[False], [False], [False], [False], [False]],
             [[False], [True], [False], [False], [False]],
             [[False], [False], [False], [False], [False]]]]"

definition masked0 :: "real tensor4" where
  "masked0 = [[[[0], [0], [0], [0], [0]],
                 [[0], [0.8], [0], [0], [0]],
                 [[0], [0], [0], [0], [0]]]]"


text \<open>
  One sample of six channels of size 1 by 1, numbered 0 to 5, and the same channels in
  the orders 0, 3, 1, 4, 2, 5 and 0, 4, 3, 2, 1, 5.
\<close>

definition x6 :: "nat tensor4" where
  "x6 = [[[[0]], [[1]], [[2]], [[3]], [[4]], [[5]]]]"

definition y6 :: "nat tensor4" where
  "y6 = [[[[0]], [[3]], [[1]], [[4]], [[2]], [[5]]]]"

definition z6 :: "nat tensor4" where
  "z6 = [[[[0]], [[4]], [[3]], [[2]], [[1]], [[5]]]]"

text \<open>A batch of one image of 2 by 2 pixels.\<close>

definition photos0 :: "real tensor4" where
  "photos0 = ones 1 3 2 2"

text \<open>
  A format for the examples: no rounding, and the largest finite number of the 32-bit
  format.
\<close>

definition F0 :: format where
  "F0 = \<lparr>rnd = (\<lambda>r. r), fmax = (2 ^ 24 - 1) * 2 ^ 104\<rparr>"

text \<open>
  A predicted and a ground-truth score map of one image of 2 by 2 pixels, and the
  visibility mask that is zero everywhere.
\<close>

definition left_score0 :: "float tensor4" where
  "left_score0 = [[[[Finite 0.5], [Finite 0.2]], [[Finite 0.1], [Finite 0.9]]]]"

definition im1gt_score0 :: "float tensor4" where
  "im1gt_score0 = [[[[Finite 1], [Finite 0]], [[Finite 0], [Finite 1]]]]"

definition zero_mask0 :: "float tensor4" where
  "zero_mask0 = [[[[Finite 0], [Finite 0]], [[Finite 0], [Finite 0]]]]"

text \<open>
  A predicted score map of one pixel with the entry \<open>2 ^ 70\<close>, a number of the 32-bit
  format whose square is beyond the largest one, with the ground truth and the mask 0.
\<close>

definition big_score0 :: "float tensor4" where
  "big_score0 = [[[[Finite (2 ^ 70)]]]]"

definition zero1 :: "float tensor4" where
  "zero1 = [[[[Finite 0]]]]"

section \<open>Properties\<close>

subsection \<open>The channel shuffle as a permutation of channels\<close>

lemma idx_bound:
  fixes i j g n :: nat
  assumes "j < n" and "i < g"
  shows "j * g + i < n * g"
proof -
  have "j * g + i < j * g + g" using assms(2) by simp
  also have "\<dots> = Suc j * g" by simp
  also have "\<dots> \<le> n * g" using assms(1) by (intro mult_le_mono1) simp
  finally show ?thesis .
qed

lemma idx_bound_le:
  fixes i g n :: nat
  assumes "i < g"
  shows "i * n + n \<le> g * n"
proof -
  have "i * n + n = Suc i * n" by simp
  also have "\<dots> \<le> g * n" using assms by (intro mult_le_mono1) simp
  finally show ?thesis .
qed

lemma length_concat_rect:
  "length (concat (map (\<lambda>j. map (f j) [0..<g]) [0..<n])) = n * g"
  by (induction n) simp_all

lemma nth_concat_rect:
  "j < n \<Longrightarrow> i < g \<Longrightarrow> concat (map (\<lambda>j. map (f j) [0..<g]) [0..<n]) ! (j * g + i) = f j i"
proof (induction n)
  case 0
  then show ?case by simp
next
  case (Suc n)
  show ?case
  proof (cases "j < n")
    case True
    then have "j * g + i < n * g"
      using Suc.prems(2) by (rule idx_bound)
    with True Suc show ?thesis
      by (simp add: nth_append length_concat_rect)
  next
    case False
    with Suc.prems have "j = n" by simp
    with Suc.prems show ?thesis
      by (simp add: nth_append length_concat_rect)
  qed
qed

lemma transpose_view_groups:
  assumes "length xs = g * n" and "0 < g"
  shows "transpose (view_groups g n xs) = map (\<lambda>j. map (\<lambda>i. xs ! (i * n + j)) [0..<g]) [0..<n]"
proof -
  have len: "length (view_groups g n xs ! i) = n" if "i < length (view_groups g n xs)" for i
  proof -
    from that have i: "i < g" by (simp add: view_groups_def)
    then have "i * n + n \<le> g * n"
      by (rule idx_bound_le)
    with assms i show "length (view_groups g n xs ! i) = n"
      by (simp add: view_groups_def)
  qed
  have ne: "view_groups g n xs = [] \<Longrightarrow> n = 0"
    using assms(2) by (simp add: view_groups_def)
  have "transpose (view_groups g n xs) =
        map (\<lambda>j. map (\<lambda>i. view_groups g n xs ! i ! j) [0..<length (view_groups g n xs)]) [0..<n]"
    by (rule transpose_rectangle[OF ne len])
  also have "\<dots> = map (\<lambda>j. map (\<lambda>i. xs ! (i * n + j)) [0..<g]) [0..<n]"
  proof (rule map_cong[OF refl], rule map_cong)
    show "[0..<length (view_groups g n xs)] = [0..<g]" by (simp add: view_groups_def)
  next
    fix j i assume "j \<in> set [0..<n]" "i \<in> set [0..<g]"
    then have j: "j < n" and i: "i < g" by simp_all
    from i have "i * n + n \<le> g * n"
      by (rule idx_bound_le)
    with assms i j show "view_groups g n xs ! i ! j = xs ! (i * n + j)"
      by (simp add: view_groups_def)
  qed
  finally show ?thesis .
qed

lemma length_shuffle_channels:
  "length xs = g * n \<Longrightarrow> 0 < g \<Longrightarrow> length (shuffle_channels g n xs) = g * n"
  by (simp add: shuffle_channels_def transpose_view_groups length_concat_rect mult.commute)

lemma nth_shuffle_channels:
  "length xs = g * n \<Longrightarrow> 0 < g \<Longrightarrow> i < g \<Longrightarrow> j < n \<Longrightarrow>
   shuffle_channels g n xs ! (j * g + i) = xs ! (i * n + j)"
  by (simp add: shuffle_channels_def transpose_view_groups nth_concat_rect)

lemma shuffle_channels_inverse:
  assumes "length xs = g * n" and "0 < g" and "0 < n"
  shows "shuffle_channels n g (shuffle_channels g n xs) = xs"
proof (rule nth_equalityI)
  have l1: "length (shuffle_channels g n xs) = n * g"
    using assms by (simp add: length_shuffle_channels mult.commute)
  then show "length (shuffle_channels n g (shuffle_channels g n xs)) = length xs"
    using assms by (simp add: length_shuffle_channels mult.commute)
  fix k assume "k < length (shuffle_channels n g (shuffle_channels g n xs))"
  then have k: "k < g * n"
    using l1 assms by (simp add: length_shuffle_channels mult.commute)
  define i where "i = k div n"
  define j where "j = k mod n"
  have kij: "k = i * n + j" by (simp add: i_def j_def)
  have j: "j < n" using assms(3) by (simp add: j_def)
  have i: "i < g" using k assms(3) by (simp add: i_def less_mult_imp_div_less mult.commute)
  have "shuffle_channels n g (shuffle_channels g n xs) ! (i * n + j) =
        shuffle_channels g n xs ! (j * g + i)"
    using l1 assms i j by (simp add: nth_shuffle_channels)
  also have "\<dots> = xs ! (i * n + j)"
    using assms i j by (simp add: nth_shuffle_channels)
  finally show "shuffle_channels n g (shuffle_channels g n xs) ! k = xs ! k"
    by (simp add: kij)
qed


lemma set_shuffle_channels_subset:
  assumes "length xs = g * n" and "0 < g" and "0 < n"
  shows "set (shuffle_channels g n xs) \<subseteq> set xs"
proof
  fix p assume "p \<in> set (shuffle_channels g n xs)"
  then obtain k where k: "k < length (shuffle_channels g n xs)" and p: "p = shuffle_channels g n xs ! k"
    by (auto simp: in_set_conv_nth)
  from k assms have kb: "k < n * g" by (simp add: length_shuffle_channels mult.commute)
  define j where "j = k div g"
  define i where "i = k mod g"
  have kij: "k = j * g + i" by (simp add: i_def j_def)
  have i: "i < g" using assms(2) by (simp add: i_def)
  have j: "j < n" using kb assms(2) by (simp add: j_def less_mult_imp_div_less)
  have "i * n + j < g * n" using i j by (rule idx_bound)
  moreover have "p = xs ! (i * n + j)"
    using assms i j by (simp add: p kij nth_shuffle_channels)
  ultimately show "p \<in> set xs" using assms(1) by simp
qed

lemma size4_has_shape:
  assumes "has_shape x (b, c, h, w)" and "0 < b" and "0 < c" and "0 < h"
  shows "size4 x = (b, c, h, w)"
proof -
  from assms(1,2) obtain s x' where x: "x = s # x'" by (cases x) (auto simp: has_shape_def)
  with assms(1,3) obtain p s' where s: "s = p # s'" by (cases s) (auto simp: has_shape_def)
  with x assms(1,4) obtain r p' where p: "p = r # p'" by (cases p) (auto simp: has_shape_def)
  from assms(1) show ?thesis by (simp add: x s p has_shape_def size4_def)
qed

lemma has_shape_map:
  assumes "has_shape x (b, c, h, w)"
    and "\<And>s. s \<in> set x \<Longrightarrow> length (f s) = c \<and> set (f s) \<subseteq> set s"
  shows "has_shape (map f x) (b, c, h, w)"
  using assms by (fastforce simp: has_shape_def list_all_iff)

lemma channel_shuffle_shape:
  assumes "has_shape x (b, g * n, h, w)" and "0 < b" and "0 < g" and "0 < n"
    and "0 < h" and "0 < w"
  shows "channel_shuffle x (int g) = Inr (map (shuffle_channels g n) x)"
proof -
  have s: "size4 x = (b, g * n, h, w)"
    using assms(1,2) _ assms(5) by (rule size4_has_shape) (use assms(3,4) in simp)
  have "int (g * n) div int g = int n" using assms(3) by (simp flip: of_nat_mult of_nat_div)
  then show ?thesis using assms(2,3,5,6) by (simp add: channel_shuffle_def s)
qed

lemma channel_shuffle_inverse:
  assumes "has_shape x (b, g * n, h, w)" and "0 < b" and "0 < g" and "0 < n"
    and "0 < h" and "0 < w"
  shows "\<exists>y. channel_shuffle x (int g) = Inr y \<and> has_shape y (b, g * n, h, w) \<and>
             channel_shuffle y (int n) = Inr x"
proof -
  let ?y = "map (shuffle_channels g n) x"
  have len: "length s = g * n" if "s \<in> set x" for s
    using that assms(1) by (auto simp: has_shape_def list_all_iff)
  have y: "channel_shuffle x (int g) = Inr ?y"
    using assms by (rule channel_shuffle_shape)
  have sy: "has_shape ?y (b, g * n, h, w)"
    using assms(1)
  proof (rule has_shape_map)
    fix s assume "s \<in> set x"
    then show "length (shuffle_channels g n s) = g * n \<and> set (shuffle_channels g n s) \<subseteq> set s"
      using len assms(3,4) by (simp add: length_shuffle_channels set_shuffle_channels_subset)
  qed
  then have sy': "has_shape ?y (b, n * g, h, w)" by (simp add: mult.commute)
  have "channel_shuffle ?y (int n) = Inr (map (shuffle_channels n g) ?y)"
    using sy' assms(2,4,3,5,6) by (rule channel_shuffle_shape)
  also have "map (shuffle_channels n g) ?y = x"
    using len assms(3,4) by (simp add: map_idI shuffle_channels_inverse)
  finally show ?thesis using y sy by blast
qed


lemma shuffle_channels_2_1:
  assumes "length s = 2"
  shows "shuffle_channels 2 1 s = s"
proof (rule nth_equalityI)
  show "length (shuffle_channels 2 1 s) = length s"
    using assms by (simp add: length_shuffle_channels)
  fix k assume "k < length (shuffle_channels 2 1 s)"
  then have k: "k < 2" using assms by (simp add: length_shuffle_channels)
  have "shuffle_channels 2 1 s ! (0 * 2 + k) = s ! (k * 1 + 0)"
    using assms k by (intro nth_shuffle_channels) simp_all
  then show "shuffle_channels 2 1 s ! k = s ! k" by simp
qed

lemma shuffle_channels_twice_differs:
  assumes "length xs = 2 * n" and "2 < n" and "distinct xs"
  shows "shuffle_channels 2 n (shuffle_channels 2 n xs) \<noteq> xs"
proof
  assume eq: "shuffle_channels 2 n (shuffle_channels 2 n xs) = xs"
  let ?ys = "shuffle_channels 2 n xs"
  have ly: "length ?ys = 2 * n" using assms(1) by (simp add: length_shuffle_channels)
  have n0: "0 < n" using assms(2) by simp
  have "shuffle_channels 2 n ?ys ! (0 * 2 + 1) = ?ys ! (1 * n + 0)"
    using ly n0 by (intro nth_shuffle_channels) simp_all
  then have a: "xs ! 1 = ?ys ! n" using eq by simp
  have "?ys ! ((n div 2) * 2 + n mod 2) = xs ! ((n mod 2) * n + n div 2)"
    using assms(1) n0 by (intro nth_shuffle_channels) simp_all
  then have b: "?ys ! n = xs ! ((n mod 2) * n + n div 2)" by simp
  have lt: "(n mod 2) * n + n div 2 < length xs"
  proof -
    have "(n mod 2) * n + n div 2 < 1 * n + n"
    proof (rule add_le_less_mono)
      show "(n mod 2) * n \<le> 1 * n" by (intro mult_le_mono1) simp
      show "n div 2 < n" using n0 by simp
    qed
    then show ?thesis using assms(1) by simp
  qed
  have ne: "(n mod 2) * n + n div 2 \<noteq> 1"
  proof (cases "n mod 2 = 0")
    case True
    then show ?thesis using assms(2) by presburger
  next
    case False
    then have "n mod 2 = 1" by presburger
    then have "(n mod 2) * n + n div 2 = n + n div 2" by simp
    then show ?thesis using assms(2) by simp
  qed
  have "1 < length xs" using assms(1,2) by simp
  with assms(3) lt ne have "xs ! 1 \<noteq> xs ! ((n mod 2) * n + n div 2)"
    by (simp add: nth_eq_iff_index_eq)
  with a b show False by simp
qed


text \<open>
  Claim C7, as amended. On a tensor with no empty axis and an even number \<open>2 * n\<close> of
  channels, \<^verbatim>\<open>channel_shuffle\<close> with 2 groups returns a tensor \<open>y\<close> of the same size
  whose channel \<open>j * 2 + i\<close> is channel \<open>i * n + j\<close> of the input (\<open>i < 2\<close>, \<open>j < n\<close>).
  The map is a bijection on the tensors of that size: \<^verbatim>\<open>channel_shuffle\<close> with \<open>n\<close>
  groups undoes it from either side. It is its own inverse when there are 2 or 4
  channels (\<open>n \<le> 2\<close>), and not when there are more and the channels of the first
  sample are distinct.
\<close>

theorem channel_shuffle_2_bijective:
  assumes "has_shape x (b, 2 * n, h, w)" and "0 < b" and "0 < n" and "0 < h" and "0 < w"
  shows "\<exists>y. channel_shuffle x 2 = Inr y \<and> has_shape y (b, 2 * n, h, w) \<and>
           (\<forall>s<b. \<forall>i<2. \<forall>j<n. y ! s ! (j * 2 + i) = x ! s ! (i * n + j)) \<and>
           channel_shuffle y (int n) = Inr x \<and>
           (\<exists>u. channel_shuffle x (int n) = Inr u \<and> has_shape u (b, 2 * n, h, w) \<and>
                channel_shuffle u 2 = Inr x) \<and>
           (n \<le> 2 \<longrightarrow> channel_shuffle y 2 = Inr x) \<and>
           (2 < n \<and> distinct (x ! 0) \<longrightarrow> channel_shuffle y 2 \<noteq> Inr x)"
proof -
  have two: "(0::nat) < 2" by simp
  have len: "length (x ! s) = 2 * n" if "s < b" for s
    using that assms(1) by (auto simp: has_shape_def list_all_length)
  have lenb: "length x = b" using assms(1) by (simp add: has_shape_def)
  from channel_shuffle_inverse[OF assms(1,2) two assms(3,4,5)]
  obtain y where y: "channel_shuffle x (int 2) = Inr y" and sy: "has_shape y (b, 2 * n, h, w)"
    and inv: "channel_shuffle y (int n) = Inr x" by blast
  have ydef: "y = map (shuffle_channels 2 n) x"
    using y channel_shuffle_shape[OF assms(1,2) two assms(3,4,5)] by simp
  have idx: "\<forall>s<b. \<forall>i<2. \<forall>j<n. y ! s ! (j * 2 + i) = x ! s ! (i * n + j)"
    using len lenb by (simp add: ydef nth_shuffle_channels)
  have "has_shape x (b, n * 2, h, w)" using assms(1) by (simp add: mult.commute)
  from channel_shuffle_inverse[OF this assms(2,3) two assms(4,5)]
  have right: "\<exists>u. channel_shuffle x (int n) = Inr u \<and> has_shape u (b, 2 * n, h, w) \<and>
                channel_shuffle u 2 = Inr x"
    by (simp add: mult.commute)
  have invol: "channel_shuffle y 2 = Inr x" if "n \<le> 2"
  proof (cases "n = 2")
    case True
    with inv show ?thesis by simp
  next
    case False
    with that assms(3) have n1: "n = 1" by simp
    have "has_shape y (b, 2 * 1, h, w)" using sy n1 by simp
    then have "channel_shuffle y (int 2) = Inr (map (shuffle_channels 2 1) y)"
      using assms(2) two _ assms(4,5) by (rule channel_shuffle_shape) simp
    moreover have "map (shuffle_channels 2 1) y = y"
      using sy n1 by (intro map_idI shuffle_channels_2_1) (auto simp: has_shape_def list_all_iff)
    moreover have "y = x"
    proof -
      have "map (shuffle_channels 2 1) x = x"
        using assms(1) n1 by (intro map_idI shuffle_channels_2_1) (auto simp: has_shape_def list_all_iff)
      then show ?thesis using ydef n1 by simp
    qed
    ultimately show ?thesis by simp
  qed
  have differs: "channel_shuffle y 2 \<noteq> Inr x" if "2 < n" and "distinct (x ! 0)"
  proof
    assume a: "channel_shuffle y 2 = Inr x"
    have "channel_shuffle y (int 2) = Inr (map (shuffle_channels 2 n) y)"
      using sy assms(2) two assms(3,4,5) by (rule channel_shuffle_shape)
    with a have "map (shuffle_channels 2 n) y = x" by simp
    then have "map (shuffle_channels 2 n) y ! 0 = x ! 0" by simp
    then have "shuffle_channels 2 n (shuffle_channels 2 n (x ! 0)) = x ! 0"
      using assms(2) lenb by (simp add: ydef)
    moreover have "shuffle_channels 2 n (shuffle_channels 2 n (x ! 0)) \<noteq> x ! 0"
      using len[OF assms(2)] that by (rule shuffle_channels_twice_differs)
    ultimately show False by simp
  qed
  from y sy idx inv right invol differs show ?thesis by auto
qed

text \<open>The theorem at one sample of six channels of size 1 by 1.\<close>

theorem channel_shuffle_2_bijective_witness:
  "has_shape x6 (1, 2 * 3, 1, 1) \<and>
   (\<exists>y. channel_shuffle x6 2 = Inr y \<and> channel_shuffle y 3 = Inr x6)"
proof -
  have h: "has_shape x6 (1, 2 * 3, 1, 1)" by (simp add: x6_def has_shape_def)
  from channel_shuffle_2_bijective[OF h] show ?thesis using h by auto
qed

text \<open>
  Claim C7 as stated fails at six channels: \<^verbatim>\<open>channel_shuffle\<close> with 2 groups takes the
  channels 0, 1, 2, 3, 4, 5 to 0, 3, 1, 4, 2, 5 and these to 0, 4, 3, 2, 1, 5.
\<close>

theorem channel_shuffle_2_not_involution:
  "channel_shuffle x6 2 = Inr y6 \<and> channel_shuffle y6 2 = Inr z6 \<and> z6 \<noteq> x6"
  by code_simp

subsection \<open>The block and the detector\<close>

lemma bnd_Inr_iff: "bnd r f = Inr v \<longleftrightarrow> (\<exists>a. r = Inr a \<and> f a = Inr v)"
  by (cases r) (simp_all add: bnd_def)

lemma bnd_Inr [simp]: "bnd (Inr a) f = f a"
  by (simp add: bnd_def)

lemma bnd_Inl [simp]: "bnd (Inl e) f = Inl e"
  by (simp add: bnd_def)

lemma oup_inc_pos: "2 \<le> oup \<Longrightarrow> 0 < oup div 2" for oup :: int
  by simp

lemma InvertedResidual_init_Inr:
  assumes "stride_arg = 1 \<or> stride_arg = 2" and "benchmodel_arg \<noteq> 1"
    and "1 \<le> inp" and "2 \<le> oup"
  shows "\<exists>blk. InvertedResidual_init init inp oup stride_arg benchmodel_arg = Inr blk \<and>
           benchmodel blk = benchmodel_arg"
proof -
  have "0 < oup div 2" using assms(4) by (rule oup_inc_pos)
  then show ?thesis
    using assms(1-3)
    by (auto simp: InvertedResidual_init_def nn_Conv2d_def nn_BatchNorm2d_def Let_def)
qed

lemma InvertedResidual_init_Inl:
  assumes "stride_arg = 1 \<or> stride_arg = 2" and "benchmodel_arg \<noteq> 1"
    and "\<not> (1 \<le> inp \<and> 2 \<le> oup)"
  shows "\<exists>e. InvertedResidual_init init inp oup stride_arg benchmodel_arg = Inl e"
proof (cases "1 \<le> inp")
  case False
  then show ?thesis
    using assms(1,2) by (auto simp: InvertedResidual_init_def nn_Conv2d_def Let_def)
next
  case True
  with assms(3) have "oup div 2 \<le> 0" by simp
  then consider "oup div 2 < 0" | "oup div 2 = 0" by linarith
  then show ?thesis
  proof cases
    case 1
    then show ?thesis
      using assms(1,2) True
      by (auto simp: InvertedResidual_init_def nn_Conv2d_def nn_BatchNorm2d_def Let_def)
  next
    case 2
    then show ?thesis
      using assms(1,2) True
      by (auto simp: InvertedResidual_init_def nn_Conv2d_def nn_BatchNorm2d_def Let_def)
  qed
qed

text \<open>
  Claim C10, as amended. For a stride of 1 or 2 and a \<^verbatim>\<open>benchmodel\<close> other than 1 and 2:
  when \<open>inp\<close> is at least 1 and \<open>oup\<close> at least 2, the constructor of
  \<^verbatim>\<open>InvertedResidual\<close> returns a block, and \<^verbatim>\<open>forward\<close> of that block fails on every
  input with the read of the unassigned variable \<^verbatim>\<open>out\<close>; for every other \<open>inp\<close> and
  \<open>oup\<close> the constructor itself raises, in a layer of one of the two branches.
\<close>

theorem InvertedResidual_other_benchmodel:
  assumes "stride_arg = 1 \<or> stride_arg = 2" and "benchmodel_arg \<noteq> 1" and "benchmodel_arg \<noteq> 2"
  shows "(1 \<le> inp \<and> 2 \<le> oup \<longrightarrow>
            (\<exists>blk. InvertedResidual_init init inp oup stride_arg benchmodel_arg = Inr blk \<and>
               (\<forall>T x. InvertedResidual_forward T blk x = Inl UnboundLocalError))) \<and>
         (\<not> (1 \<le> inp \<and> 2 \<le> oup) \<longrightarrow>
            (\<exists>e. InvertedResidual_init init inp oup stride_arg benchmodel_arg = Inl e))"
proof (intro conjI impI)
  assume "1 \<le> inp \<and> 2 \<le> oup"
  then obtain blk
    where blk: "InvertedResidual_init init inp oup stride_arg benchmodel_arg = Inr blk"
      and b: "benchmodel blk = benchmodel_arg"
    using InvertedResidual_init_Inr[OF assms(1,2), of inp oup init] by blast
  have "InvertedResidual_forward T blk x = Inl UnboundLocalError" for T x
    using b assms(2,3) by (auto simp: InvertedResidual_forward_def)
  with blk show "\<exists>blk. InvertedResidual_init init inp oup stride_arg benchmodel_arg = Inr blk \<and>
      (\<forall>T x. InvertedResidual_forward T blk x = Inl UnboundLocalError)"
    by blast
next
  assume "\<not> (1 \<le> inp \<and> 2 \<le> oup)"
  then show "\<exists>e. InvertedResidual_init init inp oup stride_arg benchmodel_arg = Inl e"
    using assms(1,2) by (intro InvertedResidual_init_Inl)
qed

text \<open>The theorem at \<^verbatim>\<open>InvertedResidual(3, 12, 1, 3)\<close>.\<close>

theorem InvertedResidual_other_benchmodel_witness:
  "((1::int) = 1 \<or> (1::int) = 2) \<and> (3::int) \<noteq> 1 \<and> (3::int) \<noteq> 2 \<and>
   (1::int) \<le> 3 \<and> (2::int) \<le> 12 \<and>
   (\<exists>blk. InvertedResidual_init (\<lambda>k. ()) 3 12 1 3 = Inr blk \<and>
      (\<forall>T x. InvertedResidual_forward T blk x = Inl UnboundLocalError))"
  using InvertedResidual_other_benchmodel [of 1 3 3 12 "\<lambda>k. ()"] by simp

text \<open>
  Claim C10 as it is stated says that the construction succeeds for every \<^verbatim>\<open>benchmodel\<close>
  other than 1 and 2. \<^verbatim>\<open>InvertedResidual(3, 1, 1, 3)\<close> has \<open>oup_inc = 0\<close>: the
  depthwise convolution of \<^verbatim>\<open>banch2\<close> is given no group, and the constructor raises.
\<close>

theorem InvertedResidual_no_group:
  "InvertedResidual_init init0 3 1 1 3 = Inl ValueError"
  by (simp add: InvertedResidual_init_def nn_Conv2d_def nn_BatchNorm2d_def)

text \<open>
  Claim C8 says that the block has no failure but the assertion on the stride. With
  \<^verbatim>\<open>InvertedResidual(3, 12, 1, 3)\<close> the constructor passes the assertion and builds both
  branches, as it does for \<^verbatim>\<open>benchmodel\<close> 2, and \<^verbatim>\<open>forward\<close> then fails on every input.
\<close>

theorem InvertedResidual_benchmodel_3_forward:
  "(case InvertedResidual_init init 3 12 1 3 of
      Inl e \<Rightarrow> False
    | Inr blk \<Rightarrow> banch1 blk \<noteq> None \<and> InvertedResidual_forward T blk x = Inl UnboundLocalError)"
  by (simp add: InvertedResidual_init_def nn_Conv2d_def nn_BatchNorm2d_def
      InvertedResidual_forward_def Let_def)

text \<open>
  Claim C6. Whenever \<^verbatim>\<open>process\<close> returns, the top-k map computed again from its third
  output with the same \<^verbatim>\<open>TOPK\<close> is the mask it returned as its second output.
\<close>

theorem process_topk_mask_from_topk_value:
  assumes "process T U self im1w_score = Inr (smoothed, topk_mask, topk_value)"
  shows "topk_map U topk_value (TOPK self) = Inr topk_mask"
  using assms by (auto simp: process_def bnd_Inr_iff Let_def)

text \<open>
  Claim C1, as amended. Whenever \<^verbatim>\<open>process\<close> returns, its third output is the score
  map after the border filter and the multiplication by the NMS mask: the value the top-k
  mask is computed from, before that mask is applied and before the smoothing.
\<close>

theorem process_topk_value_is_nms_masked:
  assumes "process T U self im1w_score = Inr (smoothed, topk_mask, topk_value)"
  shows "\<exists>filtered nms_mask.
           filter_border U im1w_score = Inr filtered \<and>
           nms U filtered (NMS_THRESH self) (NMS_KSIZE self) = Inr nms_mask \<and>
           tmul filtered nms_mask = Inr topk_value"
  using assms by (auto simp: process_def bnd_Inr_iff Let_def)

text \<open>
  Claim C5. The three per-scale maps of \<^verbatim>\<open>forward\<close> are the values of one head,
  \<open>score_head\<close> with the module \<^verbatim>\<open>conv_1_1\<close> and the module \<^verbatim>\<open>insnorm_1_1\<close> of the
  detector, at the feature map, at its copy downsampled by 0.75 and at its copy
  downsampled by 0.5.
\<close>

theorem forward_feature_maps_shared_head:
  "forward_feature_maps T self feature_map =
     bnd (Upsample_scale_factor T 0.75 feature_map) (\<lambda>down_2.
     bnd (Upsample_scale_factor T 0.5 feature_map) (\<lambda>down_3.
     bnd (score_head T (conv_1_1 self) (insnorm_1_1 self) feature_map) (\<lambda>feature_map_1.
     bnd (score_head T (conv_1_1 self) (insnorm_1_1 self) down_2) (\<lambda>feature_map_2.
     bnd (score_head T (conv_1_1 self) (insnorm_1_1 self) down_3) (\<lambda>feature_map_3.
     Inr (feature_map_1, feature_map_2, feature_map_3))))))"
  by (simp add: forward_feature_maps_def score_head_def bnd_def Let_def split: sum.splits)



subsection \<open>process on an example\<close>

lemma det0_init: "RFDet_init init0 1 1 0 3 1 1 1 3 1 1 [] = Inr det0"
  by (simp add: det0_def RFDet_init_def InvertedResidual_init_def nn_Conv2d_def
      nn_BatchNorm2d_def)

lemma det0_fields:
  "NMS_THRESH det0 = 0" "NMS_KSIZE det0 = 3" "TOPK det0 = 1"
  "GAUSSIAN_KSIZE det0 = 1" "GAUSSIAN_SIGMA det0 = 1"
  by (simp_all add: det0_def RFDet_init_def InvertedResidual_init_def nn_Conv2d_def
      nn_BatchNorm2d_def)

lemma U0_fields:
  "filter_border U0 = spec_filter_border 1" "nms U0 = spec_nms"
  "topk_map U0 = spec_topk_map" "get_gauss_filter_weight U0 = spec_get_gauss_filter_weight"
  "soft_nms_3d U0 = spec_soft_nms_3d"
  "soft_max_and_argmax_1d U0 = spec_soft_max_and_argmax_1d" "L2Norm U0 = (\<lambda>x dim. Inr x)"
  by (simp_all add: U0_def)

lemma filter0: "spec_filter_border 1 score0 = Inr filtered0"
  by code_simp

lemma nms0: "spec_nms filtered0 0 3 = Inr nms_mask0"
  by code_simp

lemma tmul0: "tmul filtered0 nms_mask0 = Inr val0"
  by code_simp

lemma topk0: "spec_topk_map val0 1 = Inr mask0"
  by code_simp

lemma tmul1: "tmul (to_float mask0) val0 = Inr masked0"
  by code_simp

lemma gauss0: "spec_get_gauss_filter_weight 1 1 = Inr [[1]]"
  by (simp add: spec_get_gauss_filter_weight_def)

lemma conv0: "conv2d T0 (permute_0312 masked0) [[[[1]]]] 1 0 = Inr (permute_0312 masked0)"
  by (simp add: T0_def map4_def permute_0312_def masked0_def)

lemma permute0: "permute_0231 (permute_0312 masked0) = masked0"
  by code_simp

lemma clamp0: "clamp 0 1 masked0 = masked0"
  by code_simp

lemma process0: "process T0 U0 det0 score0 = Inr (masked0, mask0, val0)"
  unfolding process_def det0_fields U0_fields filter0 bnd_Inr nms0 tmul0 Let_def topk0 tmul1 gauss0
  by (simp add: conv0 permute0 clamp0 del: One_nat_def)

text \<open>The theorem of claim C6 at the example.\<close>

theorem process_topk_mask_from_topk_value_witness:
  "process T0 U0 det0 score0 = Inr (masked0, mask0, val0) \<and>
   topk_map U0 val0 (TOPK det0) = Inr mask0"
  using process_topk_mask_from_topk_value [OF process0] process0 by simp

text \<open>The theorem of claim C1 at the example.\<close>

theorem process_topk_value_is_nms_masked_witness:
  "process T0 U0 det0 score0 = Inr (masked0, mask0, val0) \<and>
   filter_border U0 score0 = Inr filtered0 \<and>
   nms U0 filtered0 (NMS_THRESH det0) (NMS_KSIZE det0) = Inr nms_mask0 \<and>
   tmul filtered0 nms_mask0 = Inr val0"
proof -
  from process_topk_value_is_nms_masked [OF process0]
  obtain filtered nms_mask where a: "filter_border U0 score0 = Inr filtered"
    and b: "nms U0 filtered (NMS_THRESH det0) (NMS_KSIZE det0) = Inr nms_mask"
    and c: "tmul filtered nms_mask = Inr val0" by blast
  from a have fl: "filtered = filtered0" unfolding U0_fields filter0 by simp
  from b have nm: "nms_mask = nms_mask0" unfolding U0_fields det0_fields fl nms0 by simp
  from process0 a b c fl nm show ?thesis by simp
qed

text \<open>
  Claim C1 as stated fails at the example. \<^verbatim>\<open>process\<close> returns \<open>val0\<close> as its third
  output, which keeps the value 0.5 of the second local maximum; the score map after the
  top-k mask for \<open>TOPK = 1\<close> is \<open>masked0\<close>, where that value is 0.
\<close>

theorem process_topk_value_not_topk_masked:
  "process T0 U0 det0 score0 = Inr (masked0, mask0, val0) \<and>
   tmul (to_float mask0) val0 = Inr masked0 \<and>
   val0 \<noteq> masked0"
proof -
  have "val0 \<noteq> masked0" by code_simp
  with process0 tmul1 show ?thesis by simp
qed

subsection \<open>The loss\<close>

lemma map_map2_same:
  assumes "map g1 xs = map g2 ys" and "\<And>x y. g1 x = g2 y \<Longrightarrow> g3 (f x y) = g1 x"
  shows "map g3 (map2 f xs ys) = map g1 xs"
  using assms
proof (induction xs arbitrary: ys)
  case Nil
  then show ?case by simp
next
  case (Cons x xs)
  then show ?case by (cases ys) auto
qed

lemma length_map2_same: "length r = length s \<Longrightarrow> length (map2 f r s) = length r"
  by simp

lemma shape_zip4:
  assumes "same_shape x y"
  shows "same_shape (zip4 f x y) x"
proof -
  have l3: "map length (map2 (map2 f) p q) = map length p"
    if "map length p = map length q" for p q f
    using that by (rule map_map2_same) simp
  have l2: "map (map length) (map2 (map2 (map2 f)) p q) = map (map length) p"
    if "map (map length) p = map (map length) q" for p q f
    using that by (rule map_map2_same) (rule l3)
  have "map (map (map length)) (map2 (map2 (map2 (map2 f))) x y) = map (map (map length)) x"
    using assms unfolding same_shape_def by (rule map_map2_same) (rule l2)
  then show ?thesis by (simp add: same_shape_def zip4_def)
qed

lemma shape_map4: "same_shape (map4 f x) x"
  by (simp add: same_shape_def map4_def comp_def)

lemma same_shape_trans: "same_shape x y \<Longrightarrow> same_shape y z \<Longrightarrow> same_shape x z"
  by (simp add: same_shape_def)

lemma same_shape_length: "same_shape x y \<Longrightarrow> length x = length y"
  unfolding same_shape_def by (drule arg_cong[where f = length]) simp

lemma list_all_map2:
  assumes "list_all P xs" and "list_all Q ys" and "\<And>x y. P x \<Longrightarrow> Q y \<Longrightarrow> R (f x y)"
  shows "list_all R (map2 f xs ys)"
proof -
  have "R (f a b)" if "(a, b) \<in> set (zip xs ys)" for a b
  proof -
    have "a \<in> set xs" using that by (rule set_zip_leftD)
    moreover have "b \<in> set ys" using that by (rule set_zip_rightD)
    ultimately show ?thesis using assms by (simp add: list_all_iff)
  qed
  then show ?thesis by (auto simp: list_all_iff)
qed

lemma all_entries_zip4:
  assumes "all_entries P x" and "all_entries Q y" and "\<And>a b. P a \<Longrightarrow> Q b \<Longrightarrow> R (f a b)"
  shows "all_entries R (zip4 f x y)"
proof -
  have l1: "list_all R (map2 f p q)" if "list_all P p" and "list_all Q q" for p q
    using that assms(3) by (rule list_all_map2)
  have l2: "list_all (list_all R) (map2 (map2 f) p q)"
    if "list_all (list_all P) p" and "list_all (list_all Q) q" for p q
    using that l1 by (rule list_all_map2)
  have l3: "list_all (list_all (list_all R)) (map2 (map2 (map2 f)) p q)"
    if "list_all (list_all (list_all P)) p" and "list_all (list_all (list_all Q)) q" for p q
    using that l2 by (rule list_all_map2)
  show ?thesis
    using assms(1,2) l3 unfolding all_entries_def zip4_def by (rule list_all_map2)
qed

lemma rnd_mono: "float_format F \<Longrightarrow> a \<le> b \<Longrightarrow> rnd F a \<le> rnd F b"
  by (simp add: float_format_def mono_def)

lemma fin_0: "float_format F \<Longrightarrow> fin F 0 = Finite 0"
  by (simp add: float_format_def fin_def)

lemma fmul_zero:
  assumes "float_format F" and "finite_float a"
  shows "fmul F a (Finite 0) = Finite 0"
  using assms by (cases a) (simp_all add: finite_float_def fin_0)

lemma fsum_zero:
  assumes "float_format F" and "list_all (\<lambda>v. v = Finite 0) xs"
  shows "fsum F xs = Finite 0"
  using assms(2) unfolding fsum_def
  by (induction xs) (simp_all add: fin_0[OF assms(1)])

lemma sum_321_zero:
  assumes "float_format F" and "all_entries (\<lambda>v. v = Finite 0) p"
  shows "sum_321 F p = map (\<lambda>s. Finite 0) p"
  unfolding sum_321_def
proof (rule map_cong[OF refl])
  fix sample assume "sample \<in> set p"
  with assms(2) have "list_all (\<lambda>v. v = Finite 0) (concat (concat sample))"
    by (fastforce simp: all_entries_def list_all_iff)
  with assms(1) show "fsum F (concat (concat sample)) = Finite 0" by (rule fsum_zero)
qed

text \<open>The divisor of a sample with no visible pixel is a finite number, at least 2.\<close>

lemma divisor_floor:
  assumes "float_format F"
  shows "\<exists>v. fadd F (Finite 2) (fin F (1 / 10 ^ 8)) = Finite v \<and> 2 \<le> v"
proof -
  define c where "c = rnd F (1 / 10 ^ 8)"
  have f: "rnd F 0 = 0" "rnd F 1 = 1" "rnd F 2 = 2" "rnd F (fmax F) = fmax F" "3 \<le> fmax F"
    using assms by (simp_all add: float_format_def)
  have c0: "0 \<le> c" using rnd_mono[OF assms, of 0 "1 / 10 ^ 8"] by (simp add: c_def f)
  have c1: "c \<le> 1" using rnd_mono[OF assms, of "1 / 10 ^ 8" 1] by (simp add: c_def f)
  have e: "fin F (1 / 10 ^ 8) = Finite c"
    using c0 c1 f(5) unfolding fin_def c_def by auto
  have lo: "2 \<le> rnd F (2 + c)" using rnd_mono[OF assms, of 2 "2 + c"] c0 by (simp add: f)
  have "rnd F (2 + c) \<le> rnd F (fmax F)" using c1 f(5) by (intro rnd_mono[OF assms]) simp
  then have hi: "rnd F (2 + c) \<le> fmax F" by (simp add: f)
  have "fadd F (Finite 2) (Finite c) = Finite (rnd F (2 + c))"
    using lo hi f(5) by (simp add: fin_def)
  with e lo show ?thesis by simp
qed

lemma fdiv_zero:
  assumes "float_format F" and "v \<noteq> 0"
  shows "fdiv F (Finite 0) (Finite v) = Finite 0"
  using assms by (simp add: fin_0)

lemma mean_zero:
  assumes "float_format F" and "qs \<noteq> []" and "list_all (\<lambda>v. v = Finite 0) qs"
  shows "mean F qs = Finite 0"
proof -
  have s: "fsum F qs = Finite 0" using assms(1,3) by (rule fsum_zero)
  have "1 \<le> real (length qs)" using assms(2) by (cases qs) simp_all
  then have "rnd F 1 \<le> rnd F (real (length qs))" by (rule rnd_mono[OF assms(1)])
  then have n: "1 \<le> rnd F (real (length qs))" using assms(1) by (simp add: float_format_def)
  have f: "3 \<le> fmax F" using assms(1) by (simp add: float_format_def)
  show ?thesis
  proof (cases "fmax F < rnd F (real (length qs))")
    case True
    then have "fin F (real (length qs)) = PosInf" by (simp add: fin_def)
    then show ?thesis by (simp add: mean_def s)
  next
    case False
    then have "fin F (real (length qs)) = Finite (rnd F (real (length qs)))"
      using n f by (simp add: fin_def)
    then show ?thesis using n by (simp add: mean_def s fin_0[OF assms(1)])
  qed
qed

text \<open>
  Claim C9, as amended. In a format whose rounding is monotone and in which 0, 1, 2 and
  the largest finite number are exact, take a batch that is not empty, score maps and a
  mask of one shape, a mask that is zero everywhere, and squared differences that are
  all finite (none has overflowed). Then \<^verbatim>\<open>loss\<close> returns 0, and every \<^verbatim>\<open>Nvi\<close> is
  the floor 2.0, for which the divisor \<^verbatim>\<open>Nvi + 1e-8\<close> is a finite number of at least 2.
\<close>

theorem loss_zero_mask_finite:
  assumes "float_format F"
    and "same_shape left_score im1gt_score"
    and "same_shape left_score im1visible_mask"
    and "left_score \<noteq> []"
    and "all_entries (\<lambda>v. v = Finite 0) im1visible_mask"
    and "all_entries finite_float (l2_element_diff F left_score im1gt_score)"
  shows "loss F left_score im1gt_score im1visible_mask = Inr (Finite 0) \<and>
         list_all (\<lambda>n. n = Finite 2 \<and> (\<exists>v. fadd F n (fin F (1 / 10 ^ 8)) = Finite v \<and> 2 \<le> v))
           (Nvi F im1visible_mask)"
proof -
  let ?l2 = "l2_element_diff F left_score im1gt_score"
  let ?p = "zip4 (fmul F) ?l2 im1visible_mask"
  let ?qs = "map2 (\<lambda>s n. fdiv F s (fadd F n (fin F (1 / 10 ^ 8))))
               (sum_321 F ?p) (Nvi F im1visible_mask)"
  have "same_shape ?l2 (zip4 (fsub F) left_score im1gt_score)"
    unfolding l2_element_diff_def by (rule shape_map4)
  moreover have "same_shape (zip4 (fsub F) left_score im1gt_score) left_score"
    using assms(2) by (rule shape_zip4)
  ultimately have "same_shape ?l2 left_score" by (rule same_shape_trans)
  then have sh: "same_shape ?l2 im1visible_mask" using assms(3) by (rule same_shape_trans)
  have l: "loss F left_score im1gt_score im1visible_mask = Inr (mean F ?qs)"
    using assms(2) sh by (simp add: loss_def Let_def)
  have lenp: "length ?p = length left_score"
    using same_shape_length[OF shape_zip4[OF sh, of "fmul F"]]
          same_shape_length[OF sh] same_shape_length[OF assms(3)] by simp
  have lenm: "length im1visible_mask = length left_score"
    using same_shape_length[OF assms(3)] by simp
  have p0: "all_entries (\<lambda>v. v = Finite 0) ?p"
    using assms(6,5) by (rule all_entries_zip4) (simp add: fmul_zero[OF assms(1)])
  have sp: "sum_321 F ?p = map (\<lambda>s. Finite 0) ?p"
    using assms(1) p0 by (rule sum_321_zero)
  have sm: "sum_321 F im1visible_mask = map (\<lambda>s. Finite 0) im1visible_mask"
    using assms(1,5) by (rule sum_321_zero)
  have nvi: "Nvi F im1visible_mask = map (\<lambda>s. Finite 2) im1visible_mask"
    by (simp add: Nvi_def sm)
  obtain v where v: "fadd F (Finite 2) (fin F (1 / 10 ^ 8)) = Finite v" and v2: "2 \<le> v"
    using divisor_floor[OF assms(1)] by blast
  have floor: "list_all (\<lambda>n. n = Finite 2 \<and> (\<exists>v. fadd F n (fin F (1 / 10 ^ 8)) = Finite v \<and> 2 \<le> v))
      (Nvi F im1visible_mask)"
    unfolding nvi using v v2 by (simp add: list_all_iff)
  have "list_all (\<lambda>q. q = Finite 0) ?qs"
  proof (rule list_all_map2)
    show "list_all (\<lambda>s. s = Finite 0) (sum_321 F ?p)"
      unfolding sp by (simp add: list_all_iff)
    show "list_all (\<lambda>n. n = Finite 2) (Nvi F im1visible_mask)"
      unfolding nvi by (simp add: list_all_iff)
    show "fdiv F s (fadd F n (fin F (1 / 10 ^ 8))) = Finite 0"
      if "s = Finite 0" and "n = Finite 2" for s n
      unfolding that v using v2 by (intro fdiv_zero[OF assms(1)]) simp
  qed
  moreover have "?qs \<noteq> []"
  proof -
    have "length ?qs = length left_score" by (simp add: sp nvi lenp lenm)
    then show ?thesis using assms(4) by auto
  qed
  ultimately have "mean F ?qs = Finite 0"
    using assms(1) by (intro mean_zero)
  with l floor show ?thesis by simp
qed

lemma float_format_F0: "float_format F0"
  by (simp add: float_format_def F0_def mono_def)

text \<open>
  The theorem on one image of 2 by 2 pixels, with no rounding and the largest finite
  number of the 32-bit format.
\<close>

theorem loss_zero_mask_finite_witness:
  "float_format F0 \<and> same_shape left_score0 im1gt_score0 \<and>
   same_shape left_score0 zero_mask0 \<and> left_score0 \<noteq> [] \<and>
   all_entries (\<lambda>v. v = Finite 0) zero_mask0 \<and>
   all_entries finite_float (l2_element_diff F0 left_score0 im1gt_score0) \<and>
   loss F0 left_score0 im1gt_score0 zero_mask0 = Inr (Finite 0) \<and>
   list_all (\<lambda>n. n = Finite 2 \<and> (\<exists>v. fadd F0 n (fin F0 (1 / 10 ^ 8)) = Finite v \<and> 2 \<le> v))
     (Nvi F0 zero_mask0)"
proof -
  have a: "same_shape left_score0 im1gt_score0"
    by (simp add: same_shape_def left_score0_def im1gt_score0_def)
  have b: "same_shape left_score0 zero_mask0"
    by (simp add: same_shape_def left_score0_def zero_mask0_def)
  have c: "left_score0 \<noteq> []" by (simp add: left_score0_def)
  have d: "all_entries (\<lambda>v. v = Finite 0) zero_mask0"
    by (simp add: all_entries_def zero_mask0_def)
  have e: "all_entries finite_float (l2_element_diff F0 left_score0 im1gt_score0)"
    by (simp add: all_entries_def l2_element_diff_def zip4_def map4_def left_score0_def
        im1gt_score0_def finite_float_def fin_def F0_def)
  show ?thesis
    using loss_zero_mask_finite[OF float_format_F0 a b c d e] float_format_F0 a b c d e
    by simp
qed

text \<open>
  One pixel with a score \<open>x\<close>, the ground truth 0 and the mask 0, in every format that
  has the number \<open>x\<close> and in which its square overflows, as the 32-bit format does for
  \<open>2 ^ 70\<close>: the squared difference is an infinity, its product with the mask entry 0
  is NaN, and so is the loss, whatever the divisor.
\<close>

lemma loss_overflow:
  assumes "rnd F x = x" and "- fmax F \<le> x" and "x \<le> fmax F" and "fmax F < rnd F (x * x)"
  shows "loss F [[[[Finite x]]]] [[[[Finite 0]]]] [[[[Finite 0]]]] = Inr NaN"
proof -
  have d: "fsub F (Finite x) (Finite 0) = Finite x"
    using assms(1-3) by (simp add: fin_def)
  have sq: "fmul F (Finite x) (Finite x) = PosInf"
    using assms(4) by (simp add: fin_def)
  have l2: "l2_element_diff F [[[[Finite x]]]] [[[[Finite 0]]]] = [[[[PosInf]]]]"
    unfolding l2_element_diff_def zip4_def map4_def by (simp add: d sq del: fsub.simps fmul.simps)
  show ?thesis
    by (simp add: loss_def l2 same_shape_def sum_321_def fsum_def Nvi_def mean_def zip4_def)
qed

text \<open>
  Claim C9 as it is stated gives a finite loss for every score map and the zero mask.
  With the score \<open>2 ^ 70\<close> the squared difference overflows and the loss is NaN, and on
  the empty batch the mean of no element is NaN. In both cases every score is a finite
  number and no divisor is 0.
\<close>

theorem loss_zero_mask_overflow:
  "float_format F0 \<and>
   same_shape big_score0 zero1 \<and> big_score0 \<noteq> [] \<and>
   all_entries finite_float big_score0 \<and> all_entries (\<lambda>v. v = Finite 0) zero1 \<and>
   loss F0 big_score0 zero1 zero1 = Inr NaN \<and>
   loss F0 [] [] [] = Inr NaN"
  using float_format_F0
  by (simp add: same_shape_def all_entries_def finite_float_def big_score0_def zero1_def
      loss_def l2_element_diff_def Nvi_def sum_321_def fsum_def mean_def zip4_def map4_def
      fin_def F0_def)

subsection \<open>The scale fusion\<close>

lemma weighted_sum_div:
  "sum_list (map2 (*) ss (map (\<lambda>v. f v / S) bs)) = sum_list (map2 (*) ss (map f bs)) / (S::real)"
proof (induction bs arbitrary: ss)
  case Nil
  then show ?case by simp
next
  case (Cons b bs)
  then show ?case by (cases ss) (simp_all add: add_divide_distrib)
qed

lemma weighted_sum_lower:
  assumes "length ss = length es" and "\<forall>s\<in>set ss. lo \<le> s" and "\<forall>e\<in>set es. (0::real) \<le> e"
  shows "lo * sum_list es \<le> sum_list (map2 (*) ss es)"
  using assms
proof (induction ss es rule: list_induct2)
  case Nil
  then show ?case by simp
next
  case (Cons s ss e es)
  then have "lo * e \<le> s * e" by (intro mult_right_mono) simp_all
  moreover have "lo * sum_list es \<le> sum_list (map2 (*) ss es)" using Cons by simp
  ultimately show ?case by (simp add: distrib_left)
qed

lemma weighted_sum_upper:
  assumes "length ss = length es" and "\<forall>s\<in>set ss. s \<le> hi" and "\<forall>e\<in>set es. (0::real) \<le> e"
  shows "sum_list (map2 (*) ss es) \<le> hi * sum_list es"
  using assms
proof (induction ss es rule: list_induct2)
  case Nil
  then show ?case by simp
next
  case (Cons s ss e es)
  then have "s * e \<le> hi * e" by (intro mult_right_mono) simp_all
  moreover have "sum_list (map2 (*) ss es) \<le> hi * sum_list es" using Cons by simp
  ultimately show ?case by (simp add: distrib_left)
qed

lemma sum_exp_pos:
  assumes "bins \<noteq> []"
  shows "0 < sum_list (map (\<lambda>u. exp (c * u)) (bins :: real list))"
proof -
  from assms obtain b bs where "bins = b # bs" by (cases bins) auto
  moreover have "0 \<le> sum_list (map (\<lambda>u. exp (c * u)) bs)"
    by (rule sum_list_nonneg) auto
  ultimately show ?thesis by (simp add: add_pos_nonneg)
qed

lemma softmax_convex:
  assumes "length scales = length bins" and "bins \<noteq> []"
    and "\<forall>s\<in>set scales. lo \<le> s \<and> s \<le> hi"
  shows "lo \<le> weighted_sum scales (softmax c bins) \<and> weighted_sum scales (softmax c bins) \<le> hi"
proof -
  let ?es = "map (\<lambda>u. exp (c * u)) bins"
  let ?S = "sum_list ?es"
  have S: "0 < ?S" using assms(2) by (rule sum_exp_pos)
  have eq: "weighted_sum scales (softmax c bins) = sum_list (map2 (*) scales ?es) / ?S"
    by (simp add: weighted_sum_def softmax_def weighted_sum_div)
  have len: "length scales = length ?es" using assms(1) by simp
  have nn: "\<forall>e\<in>set ?es. 0 \<le> e" by auto
  have "lo * ?S \<le> sum_list (map2 (*) scales ?es)"
    using len _ nn by (rule weighted_sum_lower) (use assms(3) in simp)
  moreover have "sum_list (map2 (*) scales ?es) \<le> hi * ?S"
    using len _ nn by (rule weighted_sum_upper) (use assms(3) in simp)
  ultimately show ?thesis using S by (simp add: eq pos_le_divide_eq pos_divide_le_eq)
qed

lemma spec_scale_map_range:
  assumes "spec_soft_max_and_argmax_1d input scales c1 c2 = Inr (score_map, scale_map)"
    and "scales \<noteq> []" and "\<forall>s\<in>set scales. lo \<le> s \<and> s \<le> hi"
  shows "all_entries (\<lambda>v. lo \<le> v \<and> v \<le> hi) scale_map"
proof -
  from assms(1) have ok: "list_all (list_all (list_all (\<lambda>bins. length bins = length scales))) input"
    and sm: "scale_map = map (map (map (\<lambda>bins. [weighted_sum scales (softmax c2 bins)]))) input"
    by (auto simp: spec_soft_max_and_argmax_1d_def split: if_splits)
  have "lo \<le> weighted_sum scales (softmax c2 bins) \<and> weighted_sum scales (softmax c2 bins) \<le> hi"
    if "length bins = length scales" for bins
  proof -
    from that assms(2) have "bins \<noteq> []" by auto
    with that assms(3) show ?thesis by (intro softmax_convex) simp_all
  qed
  with ok show ?thesis
    unfolding sm all_entries_def by (simp add: list_all_iff)
qed

lemma RFDet_init_scale_list:
  assumes "RFDet_init init a b c d e f g ksize padding dilation sl = Inr self"
  shows "scale_list self = [12, 32, 64]"
  using assms by (auto simp: RFDet_init_def bnd_Inr_iff)

text \<open>
  Claim C3. With the soft-argmax as the specification describes it, every value of the
  scale map that \<^verbatim>\<open>forward\<close> returns for a detector built by \<^verbatim>\<open>RFDet.__init__\<close> lies
  between 12 and 64.
\<close>

theorem forward_scale_map_range:
  assumes "RFDet_init init a b c d e f g ksize padding dilation sl = Inr self"
    and "forward T (U\<lparr>soft_max_and_argmax_1d := spec_soft_max_and_argmax_1d\<rparr>) self photos =
           Inr (score_map, scale_map, ori_map)"
  shows "all_entries (\<lambda>v. 12 \<le> v \<and> v \<le> 64) scale_map"
proof -
  from assms(2) obtain scale_probs where
    "spec_soft_max_and_argmax_1d scale_probs (scale_list self)
       (score_com_strength self) (scale_com_strength self) = Inr (score_map, scale_map)"
    by (auto simp: forward_def bnd_Inr_iff Let_def split: prod.splits)
  then have "spec_soft_max_and_argmax_1d scale_probs [12, 32, 64]
       (score_com_strength self) (scale_com_strength self) = Inr (score_map, scale_map)"
    using RFDet_init_scale_list[OF assms(1)] by simp
  then show ?thesis by (rule spec_scale_map_range) simp_all
qed

lemma spec_soft_nms_3d_nonneg:
  assumes "spec_soft_nms_3d x ksize c = Inr y"
  shows "all_entries (\<lambda>v. 0 \<le> v) y"
proof -
  have "0 \<le> exp (c * v) / sum_list (map (\<lambda>u. exp (c * u)) us)" for v :: real and us
    by (intro divide_nonneg_nonneg sum_list_nonneg) auto
  then show ?thesis
    using assms by (auto simp: spec_soft_nms_3d_def all_entries_def list_all_iff)
qed

lemma weighted_sum_nonneg:
  assumes "\<forall>v\<in>set vs. (0::real) \<le> v" and "\<forall>w\<in>set ws. 0 \<le> w"
  shows "0 \<le> weighted_sum vs ws"
  unfolding weighted_sum_def
proof (rule sum_list_nonneg)
  fix p assume "p \<in> set (map2 (*) vs ws)"
  then obtain v w where vw: "(v, w) \<in> set (zip vs ws)" and p: "p = v * w" by auto
  from vw have "v \<in> set vs" and "w \<in> set ws"
    by (auto dest: set_zip_leftD set_zip_rightD)
  with assms show "0 \<le> p" by (simp add: p)
qed

lemma softmax_nonneg: "\<forall>w\<in>set (softmax c bins). 0 \<le> w"
  by (auto simp: softmax_def intro!: divide_nonneg_nonneg sum_list_nonneg)

lemma spec_score_map_nonneg:
  assumes "spec_soft_max_and_argmax_1d input scales c1 c2 = Inr (score_map, scale_map)"
    and "all_entries (\<lambda>v. 0 \<le> v) input"
  shows "all_entries (\<lambda>v. 0 \<le> v) score_map"
proof -
  from assms(1) have
    sm: "score_map = map (map (map (\<lambda>bins. [weighted_sum bins (softmax c1 bins)]))) input"
    by (auto simp: spec_soft_max_and_argmax_1d_def split: if_splits)
  have "0 \<le> weighted_sum bins (softmax c1 bins)" if "\<forall>v\<in>set bins. 0 \<le> v" for bins
    using that softmax_nonneg by (rule weighted_sum_nonneg)
  with assms(2) show ?thesis
    unfolding sm all_entries_def by (simp add: list_all_iff)
qed

text \<open>
  Claim C4. With the soft NMS and the soft-argmax as the specification describes them,
  every value of the score map that \<^verbatim>\<open>forward\<close> returns is at least 0.
\<close>

theorem forward_score_map_nonneg:
  assumes "forward T (U\<lparr>soft_nms_3d := spec_soft_nms_3d,
                        soft_max_and_argmax_1d := spec_soft_max_and_argmax_1d\<rparr>) self photos =
           Inr (score_map, scale_map, ori_map)"
  shows "all_entries (\<lambda>v. 0 \<le> v) score_map"
proof -
  from assms obtain score_maps scale_probs where
    n: "spec_soft_nms_3d score_maps 15 10 = Inr scale_probs" and
    s: "spec_soft_max_and_argmax_1d scale_probs (scale_list self)
       (score_com_strength self) (scale_com_strength self) = Inr (score_map, scale_map)"
    by (auto simp: forward_def bnd_Inr_iff Let_def split: prod.splits)
  from n have "all_entries (\<lambda>v. 0 \<le> v) scale_probs" by (rule spec_soft_nms_3d_nonneg)
  with s show ?thesis by (rule spec_score_map_nonneg)
qed


subsection \<open>forward on an example\<close>

lemma spec_soft_nms_3d_bins:
  assumes "list_all (list_all (list_all (\<lambda>bins. length bins = n))) x"
  shows "\<exists>y. spec_soft_nms_3d x k c = Inr y \<and>
             list_all (list_all (list_all (\<lambda>bins. length bins = n))) y"
  using assms by (auto simp: spec_soft_nms_3d_def list_all_iff dest!: nth_mem) 

lemma spec_soft_max_and_argmax_1d_returns:
  assumes "list_all (list_all (list_all (\<lambda>bins. length bins = length scales))) x"
  shows "\<exists>score_map scale_map. spec_soft_max_and_argmax_1d x scales c1 c2 = Inr (score_map, scale_map)"
  using assms by (simp add: spec_soft_max_and_argmax_1d_def)

lemma features0: "run_features T0 (features det0) photos0 = Inr (ones 1 12 2 2)"
  by code_simp

lemma feature_maps0:
  "forward_feature_maps T0 det0 (ones 1 12 2 2) = Inr (ones 1 1 2 2, ones 1 1 1 1, ones 1 1 1 1)"
  by code_simp

lemma upsample0: "Upsample_size T0 (2, 2) (ones 1 1 1 1) = Inr (ones 1 1 2 2)"
  by code_simp

lemma cat0: "cat_dim1 [ones 1 1 2 2, ones 1 1 2 2, ones 1 1 2 2] = Inr (ones 1 3 2 2)"
  by code_simp

lemma permute1: "permute_0231 (ones 1 3 2 2) = ones 1 2 2 3"
  by code_simp

lemma bins0: "list_all (list_all (list_all (\<lambda>bins. length bins = 3))) (ones 1 2 2 3)"
  by code_simp

lemma ori0: "call T0 (conv_ori det0) (ones 1 12 2 2) = Inr (ones 1 2 2 2)"
  by code_simp

lemma size0: "size4 photos0 = (1, 3, 2, 2)"
  by code_simp

lemma forward0:
  "\<exists>score_map scale_map ori_map. forward T0 U0 det0 photos0 = Inr (score_map, scale_map, ori_map)"
proof -
  have sl: "scale_list det0 = [12, 32, 64]" using det0_init by (rule RFDet_init_scale_list)
  from spec_soft_nms_3d_bins[OF bins0] obtain probs where
    n: "spec_soft_nms_3d (ones 1 2 2 3) 15 10 = Inr probs" and
    b: "list_all (list_all (list_all (\<lambda>bins. length bins = 3))) probs" by blast
  have "length [12, 32, 64 :: real] = 3" by simp
  with b have "list_all (list_all (list_all (\<lambda>bins. length bins = length [12, 32, 64 :: real]))) probs"
    by (simp only:)
  from spec_soft_max_and_argmax_1d_returns[OF this] obtain score_map scale_map where
    a: "spec_soft_max_and_argmax_1d probs [12, 32, 64]
          (score_com_strength det0) (scale_com_strength det0) = Inr (score_map, scale_map)"
    by blast
  have "forward T0 U0 det0 photos0 = Inr (score_map, scale_map, permute_0231 (ones 1 2 2 2))"
    unfolding forward_def size0 prod.case features0 bnd_Inr feature_maps0 upsample0 cat0 Let_def
      permute1 U0_fields sl ori0
    by (simp add: n a del: One_nat_def)
  then show ?thesis by blast
qed

text \<open>The theorem of claim C3 at one image of 2 by 2 pixels.\<close>

theorem forward_scale_map_range_witness:
  "RFDet_init init0 1 1 0 3 1 1 1 3 1 1 [] = Inr det0 \<and>
   (\<exists>score_map scale_map ori_map.
      forward T0 (U0\<lparr>soft_max_and_argmax_1d := spec_soft_max_and_argmax_1d\<rparr>) det0 photos0 =
        Inr (score_map, scale_map, ori_map) \<and>
      all_entries (\<lambda>v. 12 \<le> v \<and> v \<le> 64) scale_map)"
proof -
  have u: "U0\<lparr>soft_max_and_argmax_1d := spec_soft_max_and_argmax_1d\<rparr> = U0"
    by (simp add: U0_def)
  from forward0 obtain score_map scale_map ori_map where
    f: "forward T0 (U0\<lparr>soft_max_and_argmax_1d := spec_soft_max_and_argmax_1d\<rparr>) det0 photos0 =
          Inr (score_map, scale_map, ori_map)"
    unfolding u by blast
  from forward_scale_map_range [OF det0_init f] det0_init f show ?thesis by blast
qed

text \<open>The theorem of claim C4 at one image of 2 by 2 pixels.\<close>

theorem forward_score_map_nonneg_witness:
  "\<exists>score_map scale_map ori_map.
     forward T0 (U0\<lparr>soft_nms_3d := spec_soft_nms_3d,
                    soft_max_and_argmax_1d := spec_soft_max_and_argmax_1d\<rparr>) det0 photos0 =
       Inr (score_map, scale_map, ori_map) \<and>
     all_entries (\<lambda>v. 0 \<le> v) score_map"
proof -
  have u: "U0\<lparr>soft_nms_3d := spec_soft_nms_3d,
              soft_max_and_argmax_1d := spec_soft_max_and_argmax_1d\<rparr> = U0"
    by (simp add: U0_def)
  from forward0 obtain score_map scale_map ori_map where
    f: "forward T0 (U0\<lparr>soft_nms_3d := spec_soft_nms_3d,
                    soft_max_and_argmax_1d := spec_soft_max_and_argmax_1d\<rparr>) det0 photos0 =
          Inr (score_map, scale_map, ori_map)"
    unfolding u by blast
  from forward_score_map_nonneg [OF f] f show ?thesis by blast
qed

end
